theory Spec2Isabelle
  imports Main
begin

section \<open>Python values, exceptions and strings\<close>

text \<open>
  The two downloaders, \<^verbatim>\<open>download_photos.py\<close> and \<^verbatim>\<open>dns_resolver_download.py\<close>,
  read their records from rows of a pandas data frame, so a field of a row is a
  dynamically typed value: a string, an integer, or the float NaN that pandas puts in an
  empty cell. The outcome dictionaries add booleans and \<^verbatim>\<open>None\<close>.

  A string is the list of its characters, one \<^typ>\<open>char\<close> each. An ASCII character is
  its own \<^typ>\<open>char\<close>; a \<^typ>\<open>char\<close> from 128 on stands for a character beyond ASCII.
  Which characters count as whitespace and which as alphanumeric is a table of the
  interpreter's Unicode database; the code only looks the tables up, so they are
  parameters here (\<open>isspace\<close> and \<open>isalnum\<close> of the runtime below).
\<close>

datatype pyval = PStr string | PInt int | PBool bool | PNone | PNaN

text \<open>
  Exceptions are values. \<open>GaiError\<close> is \<^verbatim>\<open>socket.gaierror\<close>, \<open>RequestException\<close>
  stands for \<^verbatim>\<open>requests.exceptions.RequestException\<close> and its subclasses
  (HTTPError, ConnectionError, Timeout, RetryError, ChunkedEncodingError),
  \<open>DNSException\<close> for what \<^verbatim>\<open>dns.resolver\<close> raises (NXDOMAIN, NoAnswer, Timeout).
\<close>

datatype exn =
    AttributeError | TypeError | ValueError | UnicodeError | OSError
  | GaiError | DNSException | RequestException

text \<open>Truth value of an object, as \<^verbatim>\<open>if x\<close> and \<^verbatim>\<open>not x\<close> test it.\<close>

fun truthy :: "pyval \<Rightarrow> bool" where
  "truthy (PStr s) = (s \<noteq> [])"
| "truthy (PInt i) = (i \<noteq> 0)"
| "truthy (PBool b) = b"
| "truthy PNone = False"
| "truthy PNaN = True"

fun isinstance_str :: "pyval \<Rightarrow> bool" where
  "isinstance_str (PStr s) = True"
| "isinstance_str v = False"

definition digit_char :: "nat \<Rightarrow> char" where
  "digit_char d = ''0123456789'' ! d"

fun digits :: "nat \<Rightarrow> string" where
  "digits n = (if n < 10 then [digit_char n]
               else digits (n div 10) @ [digit_char (n mod 10)])"

declare digits.simps [simp del]

definition str_int :: "int \<Rightarrow> string" where
  "str_int i = (if i < 0 then CHR ''-'' # digits (nat (- i)) else digits (nat i))"

text \<open>What an f-string writes for \<^verbatim>\<open>{x}\<close>.\<close>

fun py_format :: "pyval \<Rightarrow> string" where
  "py_format (PStr s) = s"
| "py_format (PInt i) = str_int i"
| "py_format (PBool b) = (if b then ''True'' else ''False'')"
| "py_format PNone = ''None''"
| "py_format PNaN = ''nan''"

definition startswith :: "string \<Rightarrow> string \<Rightarrow> bool" where
  "startswith s p = (take (length p) s = p)"

text \<open>
  \<^verbatim>\<open>s.strip()\<close>: the whitespace at both ends goes. \<open>space\<close> is the table
  \<^verbatim>\<open>str.isspace\<close>.
\<close>

definition strip :: "(char \<Rightarrow> bool) \<Rightarrow> string \<Rightarrow> string" where
  "strip space s = rev (dropWhile space (rev (dropWhile space s)))"

text \<open>
  \<^verbatim>\<open>s.replace(old, new)\<close>: every non-overlapping occurrence, left to right; an empty
  \<open>old\<close> matches before every character and at the end. \<open>replace_from\<close> carries the
  number of characters of a match still to be skipped.
\<close>

fun replace_from :: "string \<Rightarrow> string \<Rightarrow> nat \<Rightarrow> string \<Rightarrow> string" where
  "replace_from old new k [] = []"
| "replace_from old new (Suc k) (c # cs) = replace_from old new k cs"
| "replace_from old new 0 (c # cs) =
     (if startswith (c # cs) old then new @ replace_from old new (length old - 1) cs
      else c # replace_from old new 0 cs)"

definition py_replace :: "string \<Rightarrow> string \<Rightarrow> string \<Rightarrow> string" where
  "py_replace s old new =
     (if old = [] then new @ concat (map (\<lambda>c. c # new) s) else replace_from old new 0 s)"

text \<open>
  \<^verbatim>\<open>re.sub(r'[^\w\s-]', '', name)\<close>: a character stays when it is a word character
  (alphanumeric, or the underscore), whitespace, or the hyphen. On strings \<^verbatim>\<open>\s\<close> is
  the table \<^verbatim>\<open>str.isspace\<close> and \<^verbatim>\<open>\w\<close> is \<^verbatim>\<open>str.isalnum\<close> with the
  underscore.
\<close>

definition re_sub_name :: "(char \<Rightarrow> bool) \<Rightarrow> (char \<Rightarrow> bool) \<Rightarrow> string \<Rightarrow> string" where
  "re_sub_name alnum space name =
     filter (\<lambda>c. alnum c \<or> c = CHR ''_'' \<or> space c \<or> c = CHR ''-'') name"

text \<open>\<^verbatim>\<open>os.path.join\<close> of two components and \<^verbatim>\<open>os.path.splitext\<close>, POSIX flavour.\<close>

definition os_path_join :: "string \<Rightarrow> string \<Rightarrow> string" where
  "os_path_join a b =
     (if startswith b ''/'' then b
      else if a = [] \<or> last a = CHR ''/'' then a @ b
      else a @ ''/'' @ b)"

definition splitext :: "string \<Rightarrow> string \<times> string" where
  "splitext p =
     (let tail = rev (takeWhile (\<lambda>c. c \<noteq> CHR ''/'') (rev p));
          ext = rev (takeWhile (\<lambda>c. c \<noteq> CHR ''.'') (rev tail))
      in if CHR ''.'' \<in> set tail
            \<and> list_ex (\<lambda>c. c \<noteq> CHR ''.'') (take (length tail - length ext - 1) tail)
         then (take (length p - length ext - 1) p, CHR ''.'' # ext)
         else (p, []))"

text \<open>
  \<^verbatim>\<open>list(set(xs))\<close>. A set stores each string once; iterating it walks the slots of
  its hash table, and the slot of a string follows from its hash, which changes from one
  interpreter process to the next. \<open>set_add_all\<close> is the insertion, \<open>slot\<close> the position
  a string ends up at.
\<close>

fun set_add_all :: "string list \<Rightarrow> string list \<Rightarrow> string list" where
  "set_add_all acc [] = acc"
| "set_add_all acc (x # xs) = set_add_all (if x \<in> set acc then acc else acc @ [x]) xs"

definition list_of_set :: "(string \<Rightarrow> nat) \<Rightarrow> string list \<Rightarrow> string list" where
  "list_of_set slot xs = sort_key slot (set_add_all [] xs)"

section \<open>The runtime: libraries, network and file system\<close>

record url_parts =
  netloc :: string
  path :: string

record response =
  status_code :: int
  content_type :: "string option"
  chunks :: "string list"
  stream_error :: "exn option"

record retry_strategy =
  total :: nat
  backoff_factor :: nat
  status_forcelist :: "int list"
  allowed_methods :: "string list"

text \<open>Every network call leaves an event, in the order the calls were made.\<close>

datatype event =
    DnsQuery "string list" string
  | HostLookup string
  | HttpGet string string
  | SessionGet string

text \<open>
  What the code calls and does not define: the character tables \<^verbatim>\<open>str.isspace\<close>
  and \<^verbatim>\<open>str.isalnum\<close>, \<^verbatim>\<open>urlparse\<close> and \<^verbatim>\<open>urljoin\<close> of
  \<^verbatim>\<open>urllib.parse\<close> (both raise ValueError on a malformed address), the slot order of
  the string sets, and the answers of the outside world, each a function of the network
  calls made so far: \<^verbatim>\<open>Resolver.resolve(domain, 'A')\<close> with a name-server list,
  \<^verbatim>\<open>socket.gethostbyname\<close>, \<^verbatim>\<open>requests.get\<close> with a Host header,
  \<^verbatim>\<open>session.get\<close> on a session with a retry adapter, and \<^verbatim>\<open>open(path, 'wb')\<close>.
  A response is its status, its Content-Type header, the chunks \<^verbatim>\<open>iter_content\<close>
  delivers and the exception that ends the stream early, if one does.
\<close>

record runtime =
  isspace :: "char \<Rightarrow> bool"
  isalnum :: "char \<Rightarrow> bool"
  urlparse :: "string \<Rightarrow> exn + url_parts"
  urljoin :: "string \<Rightarrow> string \<Rightarrow> exn + string"
  set_slot :: "string \<Rightarrow> nat"
  dns_resolve :: "event list \<Rightarrow> string list \<Rightarrow> string \<Rightarrow> exn + string list"
  gethostbyname :: "event list \<Rightarrow> string \<Rightarrow> exn + string"
  requests_get :: "event list \<Rightarrow> string \<Rightarrow> string \<Rightarrow> exn + response"
  session_get :: "retry_strategy \<Rightarrow> event list \<Rightarrow> string \<Rightarrow> exn + response"
  open_wb :: "event list \<Rightarrow> string \<Rightarrow> exn option"

text \<open>
  The state a run changes: the files on disk with their contents, the network calls made,
  and the strategy names of the log lines \<^verbatim>\<open>Attempting to download image for ... using
  {dns_name}\<close> (the other log lines are left out).
\<close>

record state =
  files :: "string \<rightharpoonup> string"
  events :: "event list"
  attempts :: "string list"

definition os_path_exists :: "state \<Rightarrow> string \<Rightarrow> bool" where
  "os_path_exists s p = (files s p \<noteq> None)"

text \<open>\<^verbatim>\<open>response.headers.get('Content-Type', '')\<close>\<close>

definition content_type_header :: "response \<Rightarrow> string" where
  "content_type_header r = (case content_type r of None \<Rightarrow> [] | Some t \<Rightarrow> t)"

text \<open>\<^verbatim>\<open>response.raise_for_status()\<close> of requests: an HTTPError for 4xx and 5xx.\<close>

definition raise_for_status :: "response \<Rightarrow> exn option" where
  "raise_for_status r =
     (if 400 \<le> status_code r \<and> status_code r < 600 then Some RequestException else None)"

type_synonym row = "string \<rightharpoonup> pyval"

definition row_get :: "row \<Rightarrow> string \<Rightarrow> pyval \<Rightarrow> pyval" where
  "row_get r k d = (case r k of None \<Rightarrow> d | Some v \<Rightarrow> v)"

section \<open>download\_photos.py\<close>

definition MAX_RETRIES :: nat where "MAX_RETRIES = 3"
definition RETRY_BACKOFF :: nat where "RETRY_BACKOFF = 2"

definition ALTERNATIVE_BASE_URLS :: "string list" where
  "ALTERNATIVE_BASE_URLS =
     [''https://scholars.westpac.com.au'',
      ''https://www.westpac.com.au/about-westpac/sustainability/initiatives-for-you/westpac-scholars'',
      ''https://www.westpac.com.au/content/dam/public/wsch/images'']"

definition PHOTOS_OUTPUT_DIR :: string where
  "PHOTOS_OUTPUT_DIR = ''scholar_photos''"

text \<open>The session of \<open>create_session\<close> is its retry strategy, mounted for both schemes.\<close>

definition create_session :: retry_strategy where
  "create_session =
     \<lparr>total = MAX_RETRIES, backoff_factor = RETRY_BACKOFF,
      status_forcelist = [429, 500, 502, 503, 504], allowed_methods = [''GET'']\<rparr>"

text \<open>The first loop of \<open>generate_alternative_urls\<close>: the path under each base.\<close>

fun base_url_loop :: "runtime \<Rightarrow> string \<Rightarrow> string list \<Rightarrow> string list \<Rightarrow> exn + string list" where
  "base_url_loop rt url [] alternatives = Inr alternatives"
| "base_url_loop rt url (base_url # rest) alternatives =
     (case urlparse rt url of
        Inl e \<Rightarrow> Inl e
      | Inr parsed \<Rightarrow>
          (let p = path parsed;
               p' = (if startswith p ''/'' then drop 1 p else p)
           in case urljoin rt (base_url @ ''/'') p' of
                Inl e \<Rightarrow> Inl e
              | Inr joined \<Rightarrow> base_url_loop rt url rest (alternatives @ [joined])))"

text \<open>The second loop: three file name patterns under each base.\<close>

fun year_pattern_loop :: "string \<Rightarrow> string \<Rightarrow> string list \<Rightarrow> string list \<Rightarrow> string list" where
  "year_pattern_loop y i [] alternatives = alternatives"
| "year_pattern_loop y i (base_url # rest) alternatives =
     year_pattern_loop y i rest
       (alternatives @
        [base_url @ ''/'' @ y @ ''/wsch_scholarhs_'' @ i @ ''_480x480.jpg'',
         base_url @ ''/scholars_'' @ y @ ''/profile_'' @ i @ ''.jpg'',
         base_url @ ''/scholars/profile_'' @ y @ ''_'' @ i @ ''.jpg''])"

text \<open>The list \<open>alternatives\<close> as it stands before the last line removes duplicates.\<close>

definition alternatives_built :: "runtime \<Rightarrow> string \<Rightarrow> pyval \<Rightarrow> pyval \<Rightarrow> exn + string list" where
  "alternatives_built rt url scholar_id year =
     (case base_url_loop rt url ALTERNATIVE_BASE_URLS [url] of
        Inl e \<Rightarrow> Inl e
      | Inr alternatives \<Rightarrow>
          Inr (if truthy year \<and> truthy scholar_id
               then year_pattern_loop (py_format year) (py_format scholar_id)
                      ALTERNATIVE_BASE_URLS alternatives
               else alternatives))"

definition generate_alternative_urls :: "runtime \<Rightarrow> string \<Rightarrow> pyval \<Rightarrow> pyval \<Rightarrow> exn + string list" where
  "generate_alternative_urls rt url scholar_id year =
     (if url = [] then Inr []
      else case alternatives_built rt url scholar_id year of
             Inl e \<Rightarrow> Inl e
           | Inr alternatives \<Rightarrow> Inr (list_of_set (set_slot rt) alternatives))"

text \<open>
  One round of the loop of \<open>download_image\<close>: it returns the path, goes on to the
  next address, or lets an exception other than a RequestException escape.
\<close>

datatype step = Return string | Continue | Raise exn

definition except_request_exception :: "exn \<Rightarrow> step" where
  "except_request_exception e = (if e = RequestException then Continue else Raise e)"

text \<open>
  What the round does with a response (lines 135 to 149): \<open>raise_for_status\<close>, the
  content type, then the body written chunk by chunk to \<open>filepath\<close> itself.
\<close>

definition check_and_save_image :: "runtime \<Rightarrow> string \<Rightarrow> response \<Rightarrow> state \<Rightarrow> step \<times> state" where
  "check_and_save_image rt filepath response s1 =
     (case raise_for_status response of
        Some e \<Rightarrow> (except_request_exception e, s1)
      | None \<Rightarrow>
          if \<not> startswith (content_type_header response) ''image/'' then (Continue, s1)
          else (case open_wb rt (events s1) filepath of
                  Some e \<Rightarrow> (except_request_exception e, s1)
                | None \<Rightarrow>
                    (let s2 = s1\<lparr>files := (files s1)(filepath \<mapsto> concat (chunks response))\<rparr>
                     in case stream_error response of
                          Some e \<Rightarrow> (except_request_exception e, s2)
                        | None \<Rightarrow> (Return filepath, s2))))"

definition try_url :: "runtime \<Rightarrow> string \<Rightarrow> string \<Rightarrow> state \<Rightarrow> step \<times> state" where
  "try_url rt filepath current_url s =
     (let s1 = s\<lparr>events := events s @ [SessionGet current_url]\<rparr> in
      case session_get rt create_session (events s) current_url of
        Inl e \<Rightarrow> (except_request_exception e, s1)
      | Inr response \<Rightarrow> check_and_save_image rt filepath response s1)"

fun try_urls :: "runtime \<Rightarrow> string \<Rightarrow> string list \<Rightarrow> state \<Rightarrow> (exn + string option) \<times> state" where
  "try_urls rt filepath [] s = (Inr None, s)"
| "try_urls rt filepath (current_url # rest) s =
     (case try_url rt filepath current_url s of
        (Return p, s') \<Rightarrow> (Inr (Some p), s')
      | (Raise e, s') \<Rightarrow> (Inl e, s')
      | (Continue, s') \<Rightarrow> try_urls rt filepath rest s')"

text \<open>
  The file of a row is \<open>{scholar_id}_{name_clean}{file_extension}\<close> under the output
  directory, the extension taken from the path of the address when it has one.
  \<^verbatim>\<open>re.sub\<close> raises TypeError for a name that is not a string.
\<close>

definition download_image :: "runtime \<Rightarrow> row \<Rightarrow> state \<Rightarrow> (exn + string option) \<times> state" where
  "download_image rt row s =
     (let url = row_get row ''image_url'' (PStr []);
          scholar_id = row_get row ''id'' (PStr []);
          name = row_get row ''name'' (PStr ''unknown'');
          year = row_get row ''year'' (PStr [])
      in if \<not> truthy url \<or> \<not> isinstance_str url then (Inr None, s)
         else (case url of
                 PStr u \<Rightarrow>
                   if strip (isspace rt) u = [] then (Inr None, s)
                   else (case name of
                           PStr n \<Rightarrow>
                             (let name_clean =
                                    py_replace (re_sub_name (isalnum rt) (isspace rt) n) '' '' ''_''
                              in case urlparse rt u of
                                   Inl e \<Rightarrow> (Inl e, s)
                                 | Inr parsed_url \<Rightarrow>
                                     (let path_ext = snd (splitext (path parsed_url));
                                          file_extension =
                                            (if path_ext \<noteq> [] then path_ext else ''.jpg'');
                                          filename =
                                            py_format scholar_id @ ''_'' @ name_clean @ file_extension;
                                          filepath = os_path_join PHOTOS_OUTPUT_DIR filename
                                      in if os_path_exists s filepath then (Inr (Some filepath), s)
                                         else (case generate_alternative_urls rt u scholar_id year of
                                                 Inl e \<Rightarrow> (Inl e, s)
                                               | Inr urls_to_try \<Rightarrow>
                                                   try_urls rt filepath urls_to_try s)))
                         | _ \<Rightarrow> (Inl TypeError, s))
               | _ \<Rightarrow> (Inr None, s)))"

section \<open>dns\_resolver\_download.py\<close>

definition DNS_OUTPUT_DIR :: string where
  "DNS_OUTPUT_DIR = ''scholar_photos_dns''"

definition DNS_SERVERS :: "(string \<times> string list option) list" where
  "DNS_SERVERS =
     [(''Google DNS'', Some [''8.8.8.8'', ''8.8.4.4'']),
      (''Cloudflare DNS'', Some [''1.1.1.1'', ''1.0.0.1'']),
      (''OpenDNS'', Some [''208.67.222.222'', ''208.67.220.220'']),
      (''Quad9'', Some [''9.9.9.9'', ''149.112.112.112'']),
      (''Default DNS'', None)]"

text \<open>
  \<open>resolve_domain_with_dns\<close>: the address, \<open>None\<close>, or an exception that escapes.
  With a non-empty server list every exception is caught, and an empty answer falls out of
  the \<^verbatim>\<open>try\<close> to the end of the function; with the system resolver only
  \<^verbatim>\<open>socket.gaierror\<close> is caught.
\<close>

definition resolve_domain_with_dns ::
    "runtime \<Rightarrow> string \<Rightarrow> string list option \<Rightarrow> state \<Rightarrow> (exn + string option) \<times> state" where
  "resolve_domain_with_dns rt domain dns_servers s =
     (case dns_servers of
        Some (server # others) \<Rightarrow>
          (let s1 = s\<lparr>events := events s @ [DnsQuery (server # others) domain]\<rparr> in
           case dns_resolve rt (events s) (server # others) domain of
             Inl e \<Rightarrow> (Inr None, s1)
           | Inr answers \<Rightarrow>
               (case answers of [] \<Rightarrow> (Inr None, s1) | a # as \<Rightarrow> (Inr (Some a), s1)))
      | _ \<Rightarrow>
          (let s1 = s\<lparr>events := events s @ [HostLookup domain]\<rparr> in
           case gethostbyname rt (events s) domain of
             Inr ip_address \<Rightarrow> (Inr (Some ip_address), s1)
           | Inl e \<Rightarrow> if e = GaiError then (Inr None, s1) else (Inl e, s1)))"

text \<open>
  What \<open>download_with_custom_dns\<close> does with a response (lines 118 to 135): the
  status, the content type, then the body written to \<open>output_path\<close> itself.
\<close>

definition check_and_save_file ::
    "runtime \<Rightarrow> string \<Rightarrow> response \<Rightarrow> state \<Rightarrow> (exn + bool) \<times> state" where
  "check_and_save_file rt output_path response s2 =
     (if status_code response \<noteq> 200 then (Inr False, s2)
      else if \<not> startswith (content_type_header response) ''image/'' then (Inr False, s2)
      else (case open_wb rt (events s2) output_path of
              Some e \<Rightarrow> (Inl e, s2)
            | None \<Rightarrow>
                (let s3 = s2\<lparr>files := (files s2)(output_path \<mapsto>
                            concat (filter (\<lambda>chunk. chunk \<noteq> []) (chunks response)))\<rparr>
                 in case stream_error response of
                      Some e \<Rightarrow> (Inl e, s3)
                    | None \<Rightarrow> (Inr True, s3))))"

text \<open>The body of the \<^verbatim>\<open>try\<close> of \<open>download_with_custom_dns\<close>.\<close>

definition download_body ::
    "runtime \<Rightarrow> string \<Rightarrow> string \<Rightarrow> string list option \<Rightarrow> state \<Rightarrow> (exn + bool) \<times> state" where
  "download_body rt url output_path dns_servers s =
     (case urlparse rt url of
        Inl e \<Rightarrow> (Inl e, s)
      | Inr parsed_url \<Rightarrow>
          (let domain = netloc parsed_url in
           case resolve_domain_with_dns rt domain dns_servers s of
             (Inl e, s1) \<Rightarrow> (Inl e, s1)
           | (Inr None, s1) \<Rightarrow> (Inr False, s1)
           | (Inr (Some ip_address), s1) \<Rightarrow>
               if ip_address = [] then (Inr False, s1)
               else
                 (let ip_url = py_replace url domain ip_address;
                      s2 = s1\<lparr>events := events s1 @ [HttpGet ip_url domain]\<rparr>
                  in case requests_get rt (events s1) ip_url domain of
                       Inl e \<Rightarrow> (Inl e, s2)
                     | Inr response \<Rightarrow> check_and_save_file rt output_path response s2)))"

text \<open>\<^verbatim>\<open>except Exception\<close> turns whatever the body raises into \<open>False\<close>.\<close>

definition download_with_custom_dns ::
    "runtime \<Rightarrow> string \<Rightarrow> string \<Rightarrow> string \<Rightarrow> string list option \<Rightarrow> state \<Rightarrow> bool \<times> state" where
  "download_with_custom_dns rt url output_path dns_name dns_servers s =
     (case download_body rt url output_path dns_servers s of
        (Inl e, s') \<Rightarrow> (False, s')
      | (Inr ok, s') \<Rightarrow> (ok, s'))"

text \<open>The loop of \<open>process_scholar\<close> over the strategies: the name that worked, if one did.\<close>

fun dns_server_loop ::
    "runtime \<Rightarrow> string \<Rightarrow> string \<Rightarrow> (string \<times> string list option) list \<Rightarrow> state
      \<Rightarrow> string option \<times> state" where
  "dns_server_loop rt url filepath [] s = (None, s)"
| "dns_server_loop rt url filepath ((dns_name, dns_servers) # rest) s =
     (case download_with_custom_dns rt url filepath dns_name dns_servers
             (s\<lparr>attempts := attempts s @ [dns_name]\<rparr>) of
        (True, s') \<Rightarrow> (Some dns_name, s')
      | (False, s') \<Rightarrow> dns_server_loop rt url filepath rest s')"

text \<open>
  \<open>process_scholar\<close>. The dictionary it returns is the list of its entries, in the order
  they are written. \<^verbatim>\<open>url.strip()\<close> and \<^verbatim>\<open>name.replace\<close> raise AttributeError
  for a value that is not a string.
\<close>

definition process_scholar :: "runtime \<Rightarrow> row \<Rightarrow> state \<Rightarrow> (exn + (string \<times> pyval) list) \<times> state" where
  "process_scholar rt row s =
     (let url = row_get row ''image_url'' (PStr []);
          scholar_id = row_get row ''id'' (PStr []);
          name = row_get row ''name'' (PStr ''unknown'')
      in if \<not> truthy url
         then (Inr [(''scholar_id'', scholar_id), (''name'', name),
                    (''success'', PBool False), (''successful_dns'', PNone)], s)
         else (case url of
                 PStr u \<Rightarrow>
                   if strip (isspace rt) u = []
                   then (Inr [(''scholar_id'', scholar_id), (''name'', name),
                              (''success'', PBool False), (''successful_dns'', PNone)], s)
                   else (case name of
                           PStr n \<Rightarrow>
                             (let name_clean =
                                    py_replace (py_replace (py_replace n '' '' ''_'') ''.'' []) '','' [];
                                  filename = py_format scholar_id @ ''_'' @ name_clean @ ''.jpg'';
                                  filepath = os_path_join DNS_OUTPUT_DIR filename
                              in if os_path_exists s filepath
                                 then (Inr [(''scholar_id'', scholar_id), (''name'', name),
                                            (''success'', PBool True),
                                            (''successful_dns'', PStr ''Already downloaded'')], s)
                                 else (case dns_server_loop rt u filepath DNS_SERVERS s of
                                         (Some dns_name, s') \<Rightarrow>
                                           (Inr [(''scholar_id'', scholar_id), (''name'', name),
                                                 (''success'', PBool True),
                                                 (''successful_dns'', PStr dns_name)], s')
                                       | (None, s') \<Rightarrow>
                                           (Inr [(''scholar_id'', scholar_id), (''name'', name),
                                                 (''success'', PBool False),
                                                 (''successful_dns'', PNone)], s')))
                         | _ \<Rightarrow> (Inl AttributeError, s))
               | _ \<Rightarrow> (Inl AttributeError, s)))"

section \<open>A runtime to run the code on\<close>

text \<open>
  \<open>latin1_isspace\<close> and \<open>latin1_isalnum\<close> are the two tables for the characters below
  256, a \<^typ>\<open>char\<close> read as the character of that code.
  \<open>simple_urlparse\<close> and \<open>simple_urljoin\<close> give what \<^verbatim>\<open>urllib.parse\<close> gives on the
  addresses used below: an \<^verbatim>\<open>https://host/path\<close> address with no query, fragment or
  parameters, joined to a base that ends in a slash. \<open>example_slot\<close> places a string by
  its ninth character. In \<open>example_runtime\<close> no name resolves and no request is answered.
\<close>

definition latin1_isspace :: "char \<Rightarrow> bool" where
  "latin1_isspace c =
     (let n = (of_char c :: nat)
      in (9 \<le> n \<and> n \<le> 13) \<or> (28 \<le> n \<and> n \<le> 32) \<or> n = 133 \<or> n = 160)"

definition latin1_isalnum :: "char \<Rightarrow> bool" where
  "latin1_isalnum c =
     (let n = (of_char c :: nat)
      in (48 \<le> n \<and> n \<le> 57) \<or> (65 \<le> n \<and> n \<le> 90) \<or> (97 \<le> n \<and> n \<le> 122)
         \<or> n = 170 \<or> n = 178 \<or> n = 179 \<or> n = 181 \<or> n = 185 \<or> n = 186
         \<or> (188 \<le> n \<and> n \<le> 190) \<or> (192 \<le> n \<and> n \<le> 214)
         \<or> (216 \<le> n \<and> n \<le> 246) \<or> (248 \<le> n \<and> n \<le> 255))"

definition simple_urlparse :: "string \<Rightarrow> exn + url_parts" where
  "simple_urlparse u =
     (if startswith u ''https://''
      then (let rest = drop 8 u
            in Inr \<lparr>netloc = takeWhile (\<lambda>c. c \<noteq> CHR ''/'') rest,
                     path = dropWhile (\<lambda>c. c \<noteq> CHR ''/'') rest\<rparr>)
      else Inr \<lparr>netloc = [], path = u\<rparr>)"

definition simple_urljoin :: "string \<Rightarrow> string \<Rightarrow> exn + string" where
  "simple_urljoin base rel = Inr (base @ rel)"

definition example_slot :: "string \<Rightarrow> nat" where
  "example_slot s = (case drop 8 s of [] \<Rightarrow> 0 | c # cs \<Rightarrow> of_char c)"

definition example_runtime :: runtime where
  "example_runtime =
     \<lparr>isspace = latin1_isspace, isalnum = latin1_isalnum,
      urlparse = simple_urlparse, urljoin = simple_urljoin, set_slot = example_slot,
      dns_resolve = (\<lambda>h servers d. Inl DNSException),
      gethostbyname = (\<lambda>h d. Inl GaiError),
      requests_get = (\<lambda>h u host. Inl RequestException),
      session_get = (\<lambda>r h u. Inl RequestException),
      open_wb = (\<lambda>h p. None)\<rparr>"

definition empty_state :: state where
  "empty_state = \<lparr>files = Map.empty, events = [], attempts = []\<rparr>"

text \<open>
  A row as pandas reads it, and a disk that already holds the row's two files; the same
  row without a year; a row whose
  name is \<^verbatim>\<open>Jos\xe9 Nu\xf1ez, Jr.\<close> (character 233 is e with acute accent, 241 is n
  with tilde), and a disk that holds its two files.
\<close>

definition example_row :: "pyval \<Rightarrow> row" where
  "example_row url =
     [''id'' \<mapsto> PInt 42, ''name'' \<mapsto> PStr ''Jane Doe'', ''year'' \<mapsto> PInt 2022,
      ''image_url'' \<mapsto> url]"

definition accented_row :: row where
  "accented_row =
     [''id'' \<mapsto> PInt 42,
      ''name'' \<mapsto> PStr (''Jos'' @ [CHR 0xE9] @ '' Nu'' @ [CHR 0xF1] @ ''ez, Jr.''),
      ''year'' \<mapsto> PInt 2022,
      ''image_url'' \<mapsto> PStr ''https://www.westpac.com.au/a.jpg'']"

definition accented_files_state :: state where
  "accented_files_state =
     \<lparr>files = [''scholar_photos/42_Jos'' @ [CHR 0xE9] @ ''_Nu'' @ [CHR 0xF1] @ ''ez_Jr.jpg''
                 \<mapsto> ''JFIF'',
               ''scholar_photos_dns/42_Jos'' @ [CHR 0xE9] @ ''_Nu'' @ [CHR 0xF1] @ ''ez_Jr.jpg''
                 \<mapsto> ''JFIF''],
      events = [], attempts = []\<rparr>"

definition undated_row :: row where
  "undated_row =
     [''id'' \<mapsto> PInt 42, ''name'' \<mapsto> PStr ''Jane Doe'',
      ''image_url'' \<mapsto> PStr ''https://www.westpac.com.au/a.jpg'']"

definition both_files_state :: state where
  "both_files_state =
     \<lparr>files = [''scholar_photos/42_Jane_Doe.jpg'' \<mapsto> ''JFIF'',
               ''scholar_photos_dns/42_Jane_Doe.jpg'' \<mapsto> ''JFIF''],
      events = [], attempts = []\<rparr>"

text \<open>
  A network in which only Cloudflare's servers answer, one in which only the system
  resolver answers, and the state a run on the empty disk ends in with the first.
\<close>

definition image_response :: response where
  "image_response =
     \<lparr>status_code = 200, content_type = Some ''image/jpeg'', chunks = [''JF'', ''IF''],
      stream_error = None\<rparr>"

definition cloudflare_runtime :: runtime where
  "cloudflare_runtime =
     example_runtime
       \<lparr>dns_resolve := (\<lambda>h servers d. if servers = [''1.1.1.1'', ''1.0.0.1'']
                                       then Inr [''203.0.113.7''] else Inl DNSException),
        requests_get := (\<lambda>h u host. Inr image_response)\<rparr>"

definition system_only_runtime :: runtime where
  "system_only_runtime =
     example_runtime
       \<lparr>gethostbyname := (\<lambda>h d. Inr ''203.0.113.7''),
        requests_get := (\<lambda>h u host. Inr image_response)\<rparr>"

definition cloudflare_final :: state where
  "cloudflare_final =
     \<lparr>files = [''scholar_photos_dns/42_Jane_Doe.jpg'' \<mapsto> ''JFIF''],
      events = [DnsQuery [''8.8.8.8'', ''8.8.4.4''] ''www.westpac.com.au'',
                DnsQuery [''1.1.1.1'', ''1.0.0.1''] ''www.westpac.com.au'',
                HttpGet ''https://203.0.113.7/a.jpg'' ''www.westpac.com.au''],
      attempts = [''Google DNS'', ''Cloudflare DNS'']\<rparr>"

text \<open>
  A network in which every name resolves and every request gets the same response, and
  four responses: an image with status 204, an image with a status beyond 599, a page in
  place of the image, and an image whose transfer breaks off after the first chunk.
\<close>

definition answering_runtime :: "response \<Rightarrow> runtime" where
  "answering_runtime r =
     example_runtime
       \<lparr>dns_resolve := (\<lambda>h servers d. Inr [''203.0.113.7'']),
        gethostbyname := (\<lambda>h d. Inr ''203.0.113.7''),
        requests_get := (\<lambda>h u host. Inr r),
        session_get := (\<lambda>retries h u. Inr r)\<rparr>"

definition no_content_response :: response where
  "no_content_response =
     \<lparr>status_code = 204, content_type = Some ''image/jpeg'', chunks = [], stream_error = None\<rparr>"

definition odd_status_response :: response where
  "odd_status_response =
     \<lparr>status_code = 999, content_type = Some ''image/jpeg'', chunks = [''JF'', ''IF''],
      stream_error = None\<rparr>"

definition html_response :: response where
  "html_response =
     \<lparr>status_code = 200, content_type = Some ''text/html'', chunks = [''<html>''],
      stream_error = None\<rparr>"

definition broken_response :: response where
  "broken_response =
     \<lparr>status_code = 200, content_type = Some ''image/jpeg'', chunks = [''JF''],
      stream_error = Some RequestException\<rparr>"

text \<open>
  A network in which the first request of a session gets the page and the later ones the
  image.
\<close>

definition page_then_image_runtime :: runtime where
  "page_then_image_runtime =
     example_runtime
       \<lparr>session_get := (\<lambda>retries h u. if h = [] then Inr html_response
                                      else Inr image_response)\<rparr>"



section \<open>The candidate list\<close>

lemma set_add_all_distinct: "distinct acc \<Longrightarrow> distinct (set_add_all acc xs)"
  by (induction xs arbitrary: acc) auto

lemma set_add_all_set: "set (set_add_all acc xs) = set acc \<union> set xs"
  by (induction xs arbitrary: acc) auto

lemma list_of_set_distinct: "distinct (list_of_set slot xs)"
  by (simp add: list_of_set_def set_add_all_distinct)

lemma list_of_set_set: "set (list_of_set slot xs) = set xs"
  by (simp add: list_of_set_def set_add_all_set)

lemma base_url_loop_extends:
  "base_url_loop rt url bases alts = Inr xs \<Longrightarrow> \<exists>ys. xs = alts @ ys"
proof (induction bases arbitrary: alts)
  case Nil
  then show ?case by simp
next
  case (Cons b bs)
  from Cons.prems obtain joined where "base_url_loop rt url bs (alts @ [joined]) = Inr xs"
    by (auto simp: Let_def split: sum.splits)
  from Cons.IH [OF this] obtain ys where "xs = (alts @ [joined]) @ ys" by blast
  then have "xs = alts @ (joined # ys)" by simp
  then show ?case by blast
qed

lemma year_pattern_loop_extends: "\<exists>ys. year_pattern_loop y i bases alts = alts @ ys"
proof (induction bases arbitrary: alts)
  case Nil
  show ?case by simp
next
  case (Cons b bs)
  let ?new = "[b @ ''/'' @ y @ ''/wsch_scholarhs_'' @ i @ ''_480x480.jpg'',
         b @ ''/scholars_'' @ y @ ''/profile_'' @ i @ ''.jpg'',
         b @ ''/scholars/profile_'' @ y @ ''_'' @ i @ ''.jpg'']"
  from Cons.IH [of "alts @ ?new"] obtain ys
    where "year_pattern_loop y i bs (alts @ ?new) = (alts @ ?new) @ ys" by blast
  then have "year_pattern_loop y i (b # bs) alts = alts @ (?new @ ys)"
    by (simp only: year_pattern_loop.simps append_assoc)
  then show ?case by blast
qed

lemma alternatives_built_hd:
  assumes "alternatives_built rt url scholar_id year = Inr alts"
  shows "\<exists>ys. alts = url # ys"
proof -
  from assms obtain xs where xs: "base_url_loop rt url ALTERNATIVE_BASE_URLS [url] = Inr xs"
    and alts: "alts = (if truthy year \<and> truthy scholar_id
               then year_pattern_loop (py_format year) (py_format scholar_id)
                      ALTERNATIVE_BASE_URLS xs
               else xs)"
    by (auto simp: alternatives_built_def split: sum.splits)
  from base_url_loop_extends[OF xs] obtain ys where "xs = url # ys" by auto
  moreover obtain zs where "year_pattern_loop (py_format year) (py_format scholar_id)
                      ALTERNATIVE_BASE_URLS xs = xs @ zs"
    using year_pattern_loop_extends by blast
  ultimately show ?thesis using alts by auto
qed

text \<open>
  C1, as the code has it. The last line of \<open>generate_alternative_urls\<close> is
  \<^verbatim>\<open>list(set(alternatives))\<close>: for a record with a non-empty address the list
  returned holds the address once, and holds exactly the strings of the list that was
  built with the address in first place. Its order is the order of the set, not the order
  in which the strings were first seen.
\<close>

theorem generate_alternative_urls_holds_url:
  assumes "url \<noteq> []"
    and "generate_alternative_urls rt url scholar_id year = Inr urls"
  shows "\<exists>alternatives. alternatives_built rt url scholar_id year = Inr alternatives
           \<and> hd alternatives = url
           \<and> urls = list_of_set (set_slot rt) alternatives
           \<and> set urls = set alternatives
           \<and> url \<in> set urls \<and> distinct urls"
proof -
  from assms obtain alts where a: "alternatives_built rt url scholar_id year = Inr alts"
    and u: "urls = list_of_set (set_slot rt) alts"
    by (auto simp: generate_alternative_urls_def split: sum.splits)
  from alternatives_built_hd[OF a] obtain ys where ys: "alts = url # ys" by blast
  show ?thesis using a u ys by (simp add: list_of_set_set list_of_set_distinct)
qed

text \<open>
  C2: whatever the address, the id and the year, no string is twice in the list that
  \<open>generate_alternative_urls\<close> returns.
\<close>

theorem generate_alternative_urls_distinct:
  assumes "generate_alternative_urls rt url scholar_id year = Inr urls"
  shows "distinct urls"
proof (cases "url = []")
  case True
  then show ?thesis using assms by (simp add: generate_alternative_urls_def)
next
  case False
  with assms obtain alts where "urls = list_of_set (set_slot rt) alts"
    by (auto simp: generate_alternative_urls_def split: sum.splits)
  then show ?thesis by (simp add: list_of_set_distinct)
qed

lemmas run_urls = generate_alternative_urls_def alternatives_built_def ALTERNATIVE_BASE_URLS_def
  example_runtime_def simple_urlparse_def simple_urljoin_def startswith_def list_of_set_def
  example_slot_def Let_def str_int_def digits.simps digit_char_def

lemma third_base_run:
  "generate_alternative_urls example_runtime
      ''https://www.westpac.com.au/content/dam/public/wsch/images/a.jpg'' (PStr []) (PStr [])
    = Inr [''https://scholars.westpac.com.au/content/dam/public/wsch/images/a.jpg'',
           ''https://www.westpac.com.au/content/dam/public/wsch/images/a.jpg'',
           ''https://www.westpac.com.au/about-westpac/sustainability/initiatives-for-you/westpac-scholars/content/dam/public/wsch/images/a.jpg'',
           ''https://www.westpac.com.au/content/dam/public/wsch/images/content/dam/public/wsch/images/a.jpg'']"
  by (simp add: run_urls)

text \<open>
  C1 as stated fails: for a photo address under the third base, with the strings placed
  by \<open>example_slot\<close>, the address comes second in the list, after its copy under the
  first base, which was built after it.
\<close>

theorem generate_alternative_urls_order_counterexample:
  "generate_alternative_urls example_runtime
      ''https://www.westpac.com.au/content/dam/public/wsch/images/a.jpg'' (PStr []) (PStr [])
    = Inr [''https://scholars.westpac.com.au/content/dam/public/wsch/images/a.jpg'',
           ''https://www.westpac.com.au/content/dam/public/wsch/images/a.jpg'',
           ''https://www.westpac.com.au/about-westpac/sustainability/initiatives-for-you/westpac-scholars/content/dam/public/wsch/images/a.jpg'',
           ''https://www.westpac.com.au/content/dam/public/wsch/images/content/dam/public/wsch/images/a.jpg'']
   \<and> hd [''https://scholars.westpac.com.au/content/dam/public/wsch/images/a.jpg'',
           ''https://www.westpac.com.au/content/dam/public/wsch/images/a.jpg'',
           ''https://www.westpac.com.au/about-westpac/sustainability/initiatives-for-you/westpac-scholars/content/dam/public/wsch/images/a.jpg'',
           ''https://www.westpac.com.au/content/dam/public/wsch/images/content/dam/public/wsch/images/a.jpg'']
     \<noteq> ''https://www.westpac.com.au/content/dam/public/wsch/images/a.jpg''"
  using third_base_run by simp

text \<open>The same record satisfies what C1 is amended to.\<close>

theorem generate_alternative_urls_holds_url_witness:
  "\<exists>alternatives.
      alternatives_built example_runtime
        ''https://www.westpac.com.au/content/dam/public/wsch/images/a.jpg'' (PStr []) (PStr [])
        = Inr alternatives
    \<and> hd alternatives = ''https://www.westpac.com.au/content/dam/public/wsch/images/a.jpg''
    \<and> [''https://scholars.westpac.com.au/content/dam/public/wsch/images/a.jpg'',
       ''https://www.westpac.com.au/content/dam/public/wsch/images/a.jpg'',
       ''https://www.westpac.com.au/about-westpac/sustainability/initiatives-for-you/westpac-scholars/content/dam/public/wsch/images/a.jpg'',
       ''https://www.westpac.com.au/content/dam/public/wsch/images/content/dam/public/wsch/images/a.jpg'']
      = list_of_set (set_slot example_runtime) alternatives
    \<and> set [''https://scholars.westpac.com.au/content/dam/public/wsch/images/a.jpg'',
       ''https://www.westpac.com.au/content/dam/public/wsch/images/a.jpg'',
       ''https://www.westpac.com.au/about-westpac/sustainability/initiatives-for-you/westpac-scholars/content/dam/public/wsch/images/a.jpg'',
       ''https://www.westpac.com.au/content/dam/public/wsch/images/content/dam/public/wsch/images/a.jpg'']
      = set alternatives
    \<and> ''https://www.westpac.com.au/content/dam/public/wsch/images/a.jpg''
      \<in> set [''https://scholars.westpac.com.au/content/dam/public/wsch/images/a.jpg'',
       ''https://www.westpac.com.au/content/dam/public/wsch/images/a.jpg'',
       ''https://www.westpac.com.au/about-westpac/sustainability/initiatives-for-you/westpac-scholars/content/dam/public/wsch/images/a.jpg'',
       ''https://www.westpac.com.au/content/dam/public/wsch/images/content/dam/public/wsch/images/a.jpg'']
    \<and> distinct [''https://scholars.westpac.com.au/content/dam/public/wsch/images/a.jpg'',
       ''https://www.westpac.com.au/content/dam/public/wsch/images/a.jpg'',
       ''https://www.westpac.com.au/about-westpac/sustainability/initiatives-for-you/westpac-scholars/content/dam/public/wsch/images/a.jpg'',
       ''https://www.westpac.com.au/content/dam/public/wsch/images/content/dam/public/wsch/images/a.jpg'']"
proof -
  have ne: "''https://www.westpac.com.au/content/dam/public/wsch/images/a.jpg'' \<noteq> []"
    by simp
  show ?thesis
    by (rule generate_alternative_urls_holds_url [OF ne third_base_run])
qed

text \<open>
  A record whose address is itself the first year pattern under the first base: thirteen
  strings are built, nine are left.
\<close>

theorem generate_alternative_urls_distinct_witness:
  "generate_alternative_urls example_runtime
      ''https://scholars.westpac.com.au/2022/wsch_scholarhs_42_480x480.jpg'' (PInt 42) (PInt 2022)
    = Inr [''https://scholars.westpac.com.au/2022/wsch_scholarhs_42_480x480.jpg'',
      ''https://scholars.westpac.com.au/scholars_2022/profile_42.jpg'',
      ''https://scholars.westpac.com.au/scholars/profile_2022_42.jpg'',
      ''https://www.westpac.com.au/about-westpac/sustainability/initiatives-for-you/westpac-scholars/2022/wsch_scholarhs_42_480x480.jpg'',
      ''https://www.westpac.com.au/content/dam/public/wsch/images/2022/wsch_scholarhs_42_480x480.jpg'',
      ''https://www.westpac.com.au/about-westpac/sustainability/initiatives-for-you/westpac-scholars/scholars_2022/profile_42.jpg'',
      ''https://www.westpac.com.au/about-westpac/sustainability/initiatives-for-you/westpac-scholars/scholars/profile_2022_42.jpg'',
      ''https://www.westpac.com.au/content/dam/public/wsch/images/scholars_2022/profile_42.jpg'',
      ''https://www.westpac.com.au/content/dam/public/wsch/images/scholars/profile_2022_42.jpg'']
   \<and> distinct [''https://scholars.westpac.com.au/2022/wsch_scholarhs_42_480x480.jpg'',
      ''https://scholars.westpac.com.au/scholars_2022/profile_42.jpg'',
      ''https://scholars.westpac.com.au/scholars/profile_2022_42.jpg'',
      ''https://www.westpac.com.au/about-westpac/sustainability/initiatives-for-you/westpac-scholars/2022/wsch_scholarhs_42_480x480.jpg'',
      ''https://www.westpac.com.au/content/dam/public/wsch/images/2022/wsch_scholarhs_42_480x480.jpg'',
      ''https://www.westpac.com.au/about-westpac/sustainability/initiatives-for-you/westpac-scholars/scholars_2022/profile_42.jpg'',
      ''https://www.westpac.com.au/about-westpac/sustainability/initiatives-for-you/westpac-scholars/scholars/profile_2022_42.jpg'',
      ''https://www.westpac.com.au/content/dam/public/wsch/images/scholars_2022/profile_42.jpg'',
      ''https://www.westpac.com.au/content/dam/public/wsch/images/scholars/profile_2022_42.jpg'']"
  (is "?run = Inr ?L \<and> distinct ?L")
proof -
  have run: "?run = Inr ?L"
    by (simp add: run_urls)
  from generate_alternative_urls_distinct [OF run] have "distinct ?L" .
  with run show ?thesis by (rule conjI)
qed

section \<open>Rows whose file is on disk\<close>

lemma strip_Nil: "strip space [] = []"
  by (simp add: strip_def)

lemma strip_nonempty: "strip space u \<noteq> [] \<Longrightarrow> u \<noteq> []"
  using strip_Nil by blast

text \<open>A string is blank, \<^verbatim>\<open>s.strip() == ''\<close>, exactly when all its characters are whitespace.\<close>

lemma strip_blank_iff: "strip space u = [] \<longleftrightarrow> (\<forall>c\<in>set u. space c)"
proof
  assume "strip space u = []"
  then have all: "\<forall>c\<in>set (dropWhile space u). space c"
    by (simp add: strip_def dropWhile_eq_Nil_conv)
  have "dropWhile space u = []"
  proof (rule ccontr)
    assume ne: "dropWhile space u \<noteq> []"
    then have "\<not> space (hd (dropWhile space u))" by (rule hd_dropWhile)
    moreover from ne have "hd (dropWhile space u) \<in> set (dropWhile space u)" by simp
    ultimately show False using all by blast
  qed
  then show "\<forall>c\<in>set u. space c" by (simp add: dropWhile_eq_Nil_conv)
next
  assume "\<forall>c\<in>set u. space c"
  then have d: "dropWhile space u = []" by (simp add: dropWhile_eq_Nil_conv)
  show "strip space u = []" unfolding strip_def d by simp
qed

text \<open>
  What the two functions do with a row whose address is a string that is not blank and
  whose name is a string: they look for the file of the row, then enter their loop.
\<close>

lemma download_image_enters_loop:
  assumes "row_get row ''image_url'' (PStr []) = PStr u"
    and "strip (isspace rt) u \<noteq> []"
    and "row_get row ''name'' (PStr ''unknown'') = PStr n"
    and "urlparse rt u = Inr parsed"
    and "fp = os_path_join ''scholar_photos''
                (py_format (row_get row ''id'' (PStr [])) @ ''_''
                 @ py_replace (re_sub_name (isalnum rt) (isspace rt) n) '' '' ''_''
                 @ (if snd (splitext (path parsed)) \<noteq> [] then snd (splitext (path parsed))
                    else ''.jpg''))"
  shows "download_image rt row s
       = (if files s fp \<noteq> None then (Inr (Some fp), s)
          else case generate_alternative_urls rt u (row_get row ''id'' (PStr []))
                      (row_get row ''year'' (PStr [])) of
                 Inl e \<Rightarrow> (Inl e, s)
               | Inr urls_to_try \<Rightarrow> try_urls rt fp urls_to_try s)"
  using assms(1-4) strip_nonempty [of "isspace rt" u] unfolding assms(5)
  by (simp add: download_image_def os_path_exists_def PHOTOS_OUTPUT_DIR_def Let_def
      split: sum.splits)

lemma process_scholar_enters_loop:
  assumes "row_get row ''image_url'' (PStr []) = PStr u"
    and "strip (isspace rt) u \<noteq> []"
    and "row_get row ''name'' (PStr ''unknown'') = PStr n"
    and "fp = os_path_join ''scholar_photos_dns''
                (py_format (row_get row ''id'' (PStr [])) @ ''_''
                 @ py_replace (py_replace (py_replace n '' '' ''_'') ''.'' []) '','' []
                 @ ''.jpg'')"
  shows "process_scholar rt row s
       = (if files s fp \<noteq> None
          then (Inr [(''scholar_id'', row_get row ''id'' (PStr [])), (''name'', PStr n),
                     (''success'', PBool True),
                     (''successful_dns'', PStr ''Already downloaded'')], s)
          else case dns_server_loop rt u fp DNS_SERVERS s of
                 (Some dns_name, s') \<Rightarrow>
                   (Inr [(''scholar_id'', row_get row ''id'' (PStr [])), (''name'', PStr n),
                         (''success'', PBool True), (''successful_dns'', PStr dns_name)], s')
               | (None, s') \<Rightarrow>
                   (Inr [(''scholar_id'', row_get row ''id'' (PStr [])), (''name'', PStr n),
                         (''success'', PBool False), (''successful_dns'', PNone)], s'))"
  using assms(1-3) strip_nonempty [of "isspace rt" u] unfolding assms(4)
  by (simp add: process_scholar_def os_path_exists_def DNS_OUTPUT_DIR_def Let_def
      split: prod.splits option.splits)

text \<open>
  C3, as the code has it. Both functions look at the address before they look for the file.
  For a row whose address is a string that is not blank and whose name is a string: when
  the file \<^verbatim>\<open>scholar_photos/{id}_{name_clean}{ext}\<close> is on disk, \<open>download_image\<close>
  returns its path, and when the file \<^verbatim>\<open>scholar_photos_dns/{id}_{name_clean}.jpg\<close> is
  on disk, \<open>process_scholar\<close> returns the dictionary with \<open>success\<close> true and
  \<^verbatim>\<open>'Already downloaded'\<close>; the state, so the list of network calls, is as it was.
\<close>

theorem existing_file_no_network:
  assumes url: "row_get row ''image_url'' (PStr []) = PStr u"
    and nonblank: "strip (isspace rt) u \<noteq> []"
    and name: "row_get row ''name'' (PStr ''unknown'') = PStr n"
  shows "(urlparse rt u = Inr parsed
          \<and> files s (os_path_join ''scholar_photos''
                      (py_format (row_get row ''id'' (PStr [])) @ ''_''
                       @ py_replace (re_sub_name (isalnum rt) (isspace rt) n) '' '' ''_''
                       @ (if snd (splitext (path parsed)) \<noteq> []
                          then snd (splitext (path parsed)) else ''.jpg'')))
              = Some body
          \<longrightarrow> download_image rt row s
              = (Inr (Some (os_path_join ''scholar_photos''
                             (py_format (row_get row ''id'' (PStr [])) @ ''_''
                              @ py_replace (re_sub_name (isalnum rt) (isspace rt) n) '' '' ''_''
                              @ (if snd (splitext (path parsed)) \<noteq> []
                                 then snd (splitext (path parsed)) else ''.jpg'')))), s))
       \<and> (files s (os_path_join ''scholar_photos_dns''
                      (py_format (row_get row ''id'' (PStr [])) @ ''_''
                       @ py_replace (py_replace (py_replace n '' '' ''_'') ''.'' []) '','' []
                       @ ''.jpg''))
              = Some body_dns
          \<longrightarrow> process_scholar rt row s
              = (Inr [(''scholar_id'', row_get row ''id'' (PStr [])), (''name'', PStr n),
                      (''success'', PBool True),
                      (''successful_dns'', PStr ''Already downloaded'')], s))"
  using download_image_enters_loop [OF url nonblank name _ refl, of parsed s]
    process_scholar_enters_loop [OF url nonblank name refl, of s]
  by simp

lemma example_row_get:
  "row_get (example_row url) ''image_url'' d = url"
  "row_get (example_row url) ''id'' d = PInt 42"
  "row_get (example_row url) ''name'' d = PStr ''Jane Doe''"
  "row_get (example_row url) ''year'' d = PInt 2022"
  by (simp_all add: row_get_def example_row_def)

lemma accented_row_get:
  "row_get accented_row ''image_url'' d = PStr ''https://www.westpac.com.au/a.jpg''"
  "row_get accented_row ''id'' d = PInt 42"
  "row_get accented_row ''name'' d
     = PStr (''Jos'' @ [CHR 0xE9] @ '' Nu'' @ [CHR 0xF1] @ ''ez, Jr.'')"
  "row_get accented_row ''year'' d = PInt 2022"
  by (simp_all add: row_get_def accented_row_def)

lemmas run_strings = startswith_def strip_def latin1_isspace_def latin1_isalnum_def py_replace_def
  re_sub_name_def os_path_join_def splitext_def str_int_def digits.simps digit_char_def Let_def

lemma example_tables:
  "isspace example_runtime = latin1_isspace"
  "isalnum example_runtime = latin1_isalnum"
  "urlparse example_runtime = simple_urlparse"
  by (simp_all add: example_runtime_def)

lemma example_urlparse:
  "simple_urlparse ''https://www.westpac.com.au/a.jpg''
     = Inr \<lparr>netloc = ''www.westpac.com.au'', path = ''/a.jpg''\<rparr>"
  by (simp add: simple_urlparse_def startswith_def)

lemma example_photo_filepath:
  "os_path_join ''scholar_photos''
     (py_format (PInt 42) @ ''_''
      @ py_replace (re_sub_name latin1_isalnum latin1_isspace ''Jane Doe'') '' '' ''_''
      @ (if snd (splitext ''/a.jpg'') \<noteq> [] then snd (splitext ''/a.jpg'') else ''.jpg''))
   = ''scholar_photos/42_Jane_Doe.jpg''"
  by (simp add: run_strings)

lemma example_photo_filepath_empty:
  "os_path_join ''scholar_photos''
     (py_format (PInt 42) @ ''_''
      @ py_replace (re_sub_name latin1_isalnum latin1_isspace ''Jane Doe'') '' '' ''_''
      @ (if snd (splitext []) \<noteq> [] then snd (splitext []) else ''.jpg''))
   = ''scholar_photos/42_Jane_Doe.jpg''"
  by (simp add: run_strings)

lemma example_scholar_filepath:
  "os_path_join ''scholar_photos_dns''
     (py_format (PInt 42) @ ''_''
      @ py_replace (py_replace (py_replace ''Jane Doe'' '' '' ''_'') ''.'' []) '','' []
      @ ''.jpg'')
   = ''scholar_photos_dns/42_Jane_Doe.jpg''"
  by (simp add: run_strings)

lemma accented_photo_filepath:
  "os_path_join ''scholar_photos''
     (py_format (PInt 42) @ ''_''
      @ py_replace (re_sub_name latin1_isalnum latin1_isspace
                      (''Jos'' @ [CHR 0xE9] @ '' Nu'' @ [CHR 0xF1] @ ''ez, Jr.'')) '' '' ''_''
      @ (if snd (splitext ''/a.jpg'') \<noteq> [] then snd (splitext ''/a.jpg'') else ''.jpg''))
   = ''scholar_photos/42_Jos'' @ [CHR 0xE9] @ ''_Nu'' @ [CHR 0xF1] @ ''ez_Jr.jpg''"
  by (simp add: run_strings)

lemma accented_scholar_filepath:
  "os_path_join ''scholar_photos_dns''
     (py_format (PInt 42) @ ''_''
      @ py_replace (py_replace (py_replace
           (''Jos'' @ [CHR 0xE9] @ '' Nu'' @ [CHR 0xF1] @ ''ez, Jr.'') '' '' ''_'') ''.'' []) '','' []
      @ ''.jpg'')
   = ''scholar_photos_dns/42_Jos'' @ [CHR 0xE9] @ ''_Nu'' @ [CHR 0xF1] @ ''ez_Jr.jpg''"
  by (simp add: run_strings)

lemma example_url_nonblank: "strip latin1_isspace ''https://www.westpac.com.au/a.jpg'' \<noteq> []"
  by (simp add: run_strings)

lemma no_break_space_blank: "strip latin1_isspace [CHR 0xA0, CHR '' '', CHR 0x85] = []"
  by (simp add: run_strings)

text \<open>
  A row with an address, both of its files on disk; and a row whose name has letters
  beyond ASCII, a comma and a full stop, its two files on disk under the names the code
  gives them.
\<close>

theorem existing_file_no_network_witness:
  "download_image example_runtime (example_row (PStr ''https://www.westpac.com.au/a.jpg''))
       both_files_state
     = (Inr (Some ''scholar_photos/42_Jane_Doe.jpg''), both_files_state)
   \<and> process_scholar example_runtime (example_row (PStr ''https://www.westpac.com.au/a.jpg''))
       both_files_state
     = (Inr [(''scholar_id'', PInt 42), (''name'', PStr ''Jane Doe''),
             (''success'', PBool True), (''successful_dns'', PStr ''Already downloaded'')],
        both_files_state)
   \<and> download_image example_runtime accented_row accented_files_state
     = (Inr (Some (''scholar_photos/42_Jos'' @ [CHR 0xE9] @ ''_Nu'' @ [CHR 0xF1] @ ''ez_Jr.jpg'')),
        accented_files_state)
   \<and> process_scholar example_runtime accented_row accented_files_state
     = (Inr [(''scholar_id'', PInt 42),
             (''name'', PStr (''Jos'' @ [CHR 0xE9] @ '' Nu'' @ [CHR 0xF1] @ ''ez, Jr.'')),
             (''success'', PBool True), (''successful_dns'', PStr ''Already downloaded'')],
        accented_files_state)"
proof -
  have jane: "files both_files_state ''scholar_photos/42_Jane_Doe.jpg'' = Some ''JFIF''"
    "files both_files_state ''scholar_photos_dns/42_Jane_Doe.jpg'' = Some ''JFIF''"
    by (simp_all add: both_files_state_def)
  have jose:
    "files accented_files_state
       (''scholar_photos/42_Jos'' @ [CHR 0xE9] @ ''_Nu'' @ [CHR 0xF1] @ ''ez_Jr.jpg'') = Some ''JFIF''"
    "files accented_files_state
       (''scholar_photos_dns/42_Jos'' @ [CHR 0xE9] @ ''_Nu'' @ [CHR 0xF1] @ ''ez_Jr.jpg'')
       = Some ''JFIF''"
    by (simp_all add: accented_files_state_def)
  from existing_file_no_network
    [of "example_row (PStr ''https://www.westpac.com.au/a.jpg'')"
        "''https://www.westpac.com.au/a.jpg''" example_runtime "''Jane Doe''"
        "\<lparr>netloc = ''www.westpac.com.au'', path = ''/a.jpg''\<rparr>" both_files_state
        "''JFIF''" "''JFIF''"]
    example_url_nonblank jane
  have a: "download_image example_runtime (example_row (PStr ''https://www.westpac.com.au/a.jpg''))
       both_files_state
     = (Inr (Some ''scholar_photos/42_Jane_Doe.jpg''), both_files_state)
   \<and> process_scholar example_runtime (example_row (PStr ''https://www.westpac.com.au/a.jpg''))
       both_files_state
     = (Inr [(''scholar_id'', PInt 42), (''name'', PStr ''Jane Doe''),
             (''success'', PBool True), (''successful_dns'', PStr ''Already downloaded'')],
        both_files_state)"
    by (simp add: example_row_get example_tables example_urlparse run_strings)
  from existing_file_no_network
    [of accented_row "''https://www.westpac.com.au/a.jpg''" example_runtime
        "''Jos'' @ [CHR 0xE9] @ '' Nu'' @ [CHR 0xF1] @ ''ez, Jr.''"
        "\<lparr>netloc = ''www.westpac.com.au'', path = ''/a.jpg''\<rparr>" accented_files_state
        "''JFIF''" "''JFIF''"]
    example_url_nonblank jose
  have b: "download_image example_runtime accented_row accented_files_state
     = (Inr (Some (''scholar_photos/42_Jos'' @ [CHR 0xE9] @ ''_Nu'' @ [CHR 0xF1] @ ''ez_Jr.jpg'')),
        accented_files_state)
   \<and> process_scholar example_runtime accented_row accented_files_state
     = (Inr [(''scholar_id'', PInt 42),
             (''name'', PStr (''Jos'' @ [CHR 0xE9] @ '' Nu'' @ [CHR 0xF1] @ ''ez, Jr.'')),
             (''success'', PBool True), (''successful_dns'', PStr ''Already downloaded'')],
        accented_files_state)"
    by (simp add: accented_row_get example_tables example_urlparse run_strings)
  from a b show ?thesis by simp
qed

text \<open>
  C3 as stated fails for a row whose address is the empty string: its files are on disk
  at the paths the two functions compute, and both report failure.
\<close>

theorem existing_file_empty_url_counterexample:
  "urlparse example_runtime [] = Inr \<lparr>netloc = [], path = []\<rparr>
   \<and> os_path_join ''scholar_photos''
       (py_format (PInt 42) @ ''_''
        @ py_replace (re_sub_name (isalnum example_runtime) (isspace example_runtime) ''Jane Doe'')
            '' '' ''_''
        @ (if snd (splitext []) \<noteq> [] then snd (splitext []) else ''.jpg''))
     = ''scholar_photos/42_Jane_Doe.jpg''
   \<and> files both_files_state ''scholar_photos/42_Jane_Doe.jpg'' = Some ''JFIF''
   \<and> download_image example_runtime (example_row (PStr [])) both_files_state
     = (Inr None, both_files_state)
   \<and> os_path_join ''scholar_photos_dns''
       (py_format (PInt 42) @ ''_''
        @ py_replace (py_replace (py_replace ''Jane Doe'' '' '' ''_'') ''.'' []) '','' []
        @ ''.jpg'')
     = ''scholar_photos_dns/42_Jane_Doe.jpg''
   \<and> files both_files_state ''scholar_photos_dns/42_Jane_Doe.jpg'' = Some ''JFIF''
   \<and> process_scholar example_runtime (example_row (PStr [])) both_files_state
     = (Inr [(''scholar_id'', PInt 42), (''name'', PStr ''Jane Doe''),
             (''success'', PBool False), (''successful_dns'', PNone)], both_files_state)"
  by (simp add: example_tables both_files_state_def download_image_def process_scholar_def
      example_row_get simple_urlparse_def run_strings)

section \<open>Rows without an address\<close>

text \<open>
  C4, as the code has it. For the empty address the candidate list is empty, whatever the
  id and the year; for a row whose address is empty, absent or blank both functions return
  their failure value at once, \<open>None\<close> and the dictionary with \<open>success\<close> false and
  \<open>successful_dns\<close> \<open>None\<close>, and leave the state as it was. Neither outcome has an
  error text.
\<close>

theorem blank_url_fails_at_once:
  assumes "row_get row ''image_url'' (PStr []) = PStr u" and "strip (isspace rt) u = []"
  shows "generate_alternative_urls rt [] scholar_id year = Inr []
       \<and> download_image rt row s = (Inr None, s)
       \<and> process_scholar rt row s
         = (Inr [(''scholar_id'', row_get row ''id'' (PStr [])),
                 (''name'', row_get row ''name'' (PStr ''unknown'')),
                 (''success'', PBool False), (''successful_dns'', PNone)], s)"
  using assms
  by (simp add: generate_alternative_urls_def download_image_def process_scholar_def Let_def)

text \<open>
  A row with no address and no year, and a row whose address is a no-break space, a space
  and a next-line character.
\<close>

theorem blank_url_fails_at_once_witness:
  "generate_alternative_urls example_runtime [] (PStr []) (PStr []) = Inr []
   \<and> download_image example_runtime [''name'' \<mapsto> PStr ''Jane Doe''] empty_state
     = (Inr None, empty_state)
   \<and> process_scholar example_runtime [''name'' \<mapsto> PStr ''Jane Doe''] empty_state
     = (Inr [(''scholar_id'', PStr []), (''name'', PStr ''Jane Doe''),
             (''success'', PBool False), (''successful_dns'', PNone)], empty_state)
   \<and> download_image example_runtime (example_row (PStr [CHR 0xA0, CHR '' '', CHR 0x85]))
       empty_state
     = (Inr None, empty_state)
   \<and> process_scholar example_runtime (example_row (PStr [CHR 0xA0, CHR '' '', CHR 0x85]))
       empty_state
     = (Inr [(''scholar_id'', PInt 42), (''name'', PStr ''Jane Doe''),
             (''success'', PBool False), (''successful_dns'', PNone)], empty_state)"
proof -
  from blank_url_fails_at_once
    [of "[''name'' \<mapsto> PStr ''Jane Doe'']" "[]" example_runtime "PStr []" "PStr []" empty_state]
  have a: "generate_alternative_urls example_runtime [] (PStr []) (PStr []) = Inr []
   \<and> download_image example_runtime [''name'' \<mapsto> PStr ''Jane Doe''] empty_state
     = (Inr None, empty_state)
   \<and> process_scholar example_runtime [''name'' \<mapsto> PStr ''Jane Doe''] empty_state
     = (Inr [(''scholar_id'', PStr []), (''name'', PStr ''Jane Doe''),
             (''success'', PBool False), (''successful_dns'', PNone)], empty_state)"
    by (simp add: row_get_def strip_Nil)
  from blank_url_fails_at_once
    [of "example_row (PStr [CHR 0xA0, CHR '' '', CHR 0x85])" "[CHR 0xA0, CHR '' '', CHR 0x85]"
        example_runtime "PStr []" "PStr []" empty_state]
    no_break_space_blank
  have b: "download_image example_runtime (example_row (PStr [CHR 0xA0, CHR '' '', CHR 0x85]))
       empty_state
     = (Inr None, empty_state)
   \<and> process_scholar example_runtime (example_row (PStr [CHR 0xA0, CHR '' '', CHR 0x85]))
       empty_state
     = (Inr [(''scholar_id'', PInt 42), (''name'', PStr ''Jane Doe''),
             (''success'', PBool False), (''successful_dns'', PNone)], empty_state)"
    by (simp add: example_row_get example_tables)
  from a b show ?thesis by simp
qed

text \<open>
  C4 as stated fails: the outcome of that row has four entries, none of them the text
  \<^verbatim>\<open>no candidate URLs\<close>, and \<open>download_image\<close> returns \<open>None\<close>.
\<close>

theorem no_error_text_counterexample:
  "process_scholar example_runtime [''name'' \<mapsto> PStr ''Jane Doe''] empty_state
     = (Inr [(''scholar_id'', PStr []), (''name'', PStr ''Jane Doe''),
             (''success'', PBool False), (''successful_dns'', PNone)], empty_state)
   \<and> PStr ''no candidate URLs''
       \<notin> set (map snd [(''scholar_id'', PStr []), (''name'', PStr ''Jane Doe''),
                         (''success'', PBool False), (''successful_dns'', PNone)])
   \<and> download_image example_runtime [''name'' \<mapsto> PStr ''Jane Doe''] empty_state
     = (Inr None, empty_state)"
  by (simp add: process_scholar_def download_image_def row_get_def)

section \<open>The resolver\<close>

text \<open>
  C5. \<^verbatim>\<open>socket.gethostbyname\<close> encodes the name with the idna codec and raises
  UnicodeError for a name with an empty label; the branch for the system resolver catches
  \<^verbatim>\<open>socket.gaierror\<close> only, so the exception leaves \<open>resolve_domain_with_dns\<close>.
\<close>

theorem resolve_default_raises:
  "resolve_domain_with_dns
      (example_runtime\<lparr>gethostbyname := (\<lambda>h d. if d = ''.westpac.com.au'' then Inl UnicodeError
                                                 else Inl GaiError)\<rparr>)
      ''.westpac.com.au'' None empty_state
   = (Inl UnicodeError, empty_state\<lparr>events := [HostLookup ''.westpac.com.au'']\<rparr>)"
  by (simp add: resolve_domain_with_dns_def example_runtime_def empty_state_def)

text \<open>With a server list nothing is raised, and a gaierror is turned into \<open>None\<close>.\<close>

lemma resolve_custom_never_raises:
  "\<exists>r s'. resolve_domain_with_dns rt domain (Some (server # others)) s = (Inr r, s')"
  by (simp add: resolve_domain_with_dns_def Let_def split: sum.splits list.splits)

lemma resolve_default_gaierror:
  "gethostbyname rt (events s) domain = Inl GaiError
   \<Longrightarrow> resolve_domain_with_dns rt domain None s
       = (Inr None, s\<lparr>events := events s @ [HostLookup domain]\<rparr>)"
  by (simp add: resolve_domain_with_dns_def)

section \<open>The outcome dictionary\<close>

text \<open>
  C10. A row whose address cell is empty reaches \<open>process_scholar\<close> with NaN for the
  address; \<^verbatim>\<open>not url\<close> is false for NaN and \<^verbatim>\<open>url.strip()\<close> raises
  AttributeError, where \<open>download_image\<close> tests \<^verbatim>\<open>isinstance(url, str)\<close> and returns
  \<open>None\<close>.
\<close>

theorem process_scholar_nan_url:
  "process_scholar example_runtime (example_row PNaN) empty_state = (Inl AttributeError, empty_state)"
  by (simp add: process_scholar_def example_row_get)

lemma download_image_nan_url:
  "download_image example_runtime (example_row PNaN) empty_state = (Inr None, empty_state)"
  by (simp add: download_image_def example_row_get)
section \<open>The strategy loop\<close>

lemma check_and_save_file_attempts:
  "check_and_save_file rt p r s = (b, s') \<Longrightarrow> attempts s' = attempts s"
  by (auto simp: check_and_save_file_def Let_def split: if_splits option.splits)

lemma resolve_domain_with_dns_attempts:
  "resolve_domain_with_dns rt d servers s = (r, s') \<Longrightarrow> attempts s' = attempts s"
  by (auto simp: resolve_domain_with_dns_def Let_def
      split: option.splits list.splits sum.splits if_splits)

lemma download_body_attempts:
  assumes "download_body rt url p servers s = (b, s')"
  shows "attempts s' = attempts s"
proof (cases "urlparse rt url")
  case (Inl e)
  with assms show ?thesis by (simp add: download_body_def)
next
  case (Inr parsed)
  obtain r s1 where res: "resolve_domain_with_dns rt (netloc parsed) servers s = (r, s1)"
    by (cases "resolve_domain_with_dns rt (netloc parsed) servers s")
  from resolve_domain_with_dns_attempts [OF res] have a1: "attempts s1 = attempts s" .
  show ?thesis
  proof (cases r)
    case (Inl e)
    with assms Inr res a1 show ?thesis by (simp add: download_body_def)
  next
    case r: (Inr ip)
    show ?thesis
    proof (cases ip)
      case None
      with assms Inr res a1 r show ?thesis by (simp add: download_body_def)
    next
      case (Some ip_address)
      show ?thesis
      proof (cases "ip_address = []")
        case True
        with assms Inr res a1 r Some show ?thesis by (simp add: download_body_def)
      next
        case False
        let ?s2 = "s1\<lparr>events := events s1
                      @ [HttpGet (py_replace url (netloc parsed) ip_address) (netloc parsed)]\<rparr>"
        show ?thesis
        proof (cases "requests_get rt (events s1)
                        (py_replace url (netloc parsed) ip_address) (netloc parsed)")
          case (Inl e)
          with assms Inr res a1 r Some False show ?thesis
            by (auto simp: download_body_def Let_def)
        next
          case resp: (Inr response)
          with assms Inr res r Some False
          have "check_and_save_file rt p response ?s2 = (b, s')"
            by (simp add: download_body_def Let_def)
          from check_and_save_file_attempts [OF this] a1 show ?thesis by simp
        qed
      qed
    qed
  qed
qed

lemma download_with_custom_dns_attempts:
  assumes "download_with_custom_dns rt url p n servers s = (b, s')"
  shows "attempts s' = attempts s"
proof -
  obtain r s1 where body: "download_body rt url p servers s = (r, s1)"
    by (cases "download_body rt url p servers s")
  with assms have "s' = s1"
    by (auto simp: download_with_custom_dns_def split: sum.splits)
  with download_body_attempts [OF body] show ?thesis by simp
qed

text \<open>
  One attempt of \<open>download_with_custom_dns\<close>, from what the resolver and the server
  answer. With a name-server list the address is the first answer of the query; without
  one it is what \<^verbatim>\<open>gethostbyname\<close> returns.
\<close>

lemmas attempt_defs = download_with_custom_dns_def download_body_def resolve_domain_with_dns_def
  check_and_save_file_def Let_def

lemma custom_attempt_unresolved:
  assumes "urlparse rt url = Inr parsed"
    and "case dns_resolve rt (events s) (x # xs) (netloc parsed) of
           Inl e \<Rightarrow> True | Inr answers \<Rightarrow> answers = [] \<or> hd answers = []"
  shows "download_with_custom_dns rt url p nm (Some (x # xs)) s
       = (False, s\<lparr>events := events s @ [DnsQuery (x # xs) (netloc parsed)]\<rparr>)"
  using assms by (auto simp: attempt_defs split: sum.splits list.splits)

lemma custom_attempt_no_response:
  assumes "urlparse rt url = Inr parsed"
    and "dns_resolve rt (events s) (x # xs) (netloc parsed) = Inr (ip # others)"
    and "ip \<noteq> []"
    and "requests_get rt (events s @ [DnsQuery (x # xs) (netloc parsed)])
           (py_replace url (netloc parsed) ip) (netloc parsed) = Inl e"
  shows "download_with_custom_dns rt url p nm (Some (x # xs)) s
       = (False, s\<lparr>events := events s @ [DnsQuery (x # xs) (netloc parsed),
                     HttpGet (py_replace url (netloc parsed) ip) (netloc parsed)]\<rparr>)"
  using assms by (simp add: attempt_defs)

lemma custom_attempt_response:
  assumes "urlparse rt url = Inr parsed"
    and "dns_resolve rt (events s) (x # xs) (netloc parsed) = Inr (ip # others)"
    and "ip \<noteq> []"
    and "requests_get rt (events s @ [DnsQuery (x # xs) (netloc parsed)])
           (py_replace url (netloc parsed) ip) (netloc parsed) = Inr r"
  shows "download_with_custom_dns rt url p nm (Some (x # xs)) s
       = (if status_code r = 200 \<and> startswith (content_type_header r) ''image/''
          then (case open_wb rt (events s @ [DnsQuery (x # xs) (netloc parsed),
                         HttpGet (py_replace url (netloc parsed) ip) (netloc parsed)]) p of
                  None \<Rightarrow>
                    (stream_error r = None,
                     s\<lparr>events := events s @ [DnsQuery (x # xs) (netloc parsed),
                           HttpGet (py_replace url (netloc parsed) ip) (netloc parsed)],
                       files := (files s)(p \<mapsto>
                           concat (filter (\<lambda>chunk. chunk \<noteq> []) (chunks r)))\<rparr>)
                | Some e \<Rightarrow>
                    (False,
                     s\<lparr>events := events s @ [DnsQuery (x # xs) (netloc parsed),
                           HttpGet (py_replace url (netloc parsed) ip) (netloc parsed)]\<rparr>))
          else (False,
                s\<lparr>events := events s @ [DnsQuery (x # xs) (netloc parsed),
                      HttpGet (py_replace url (netloc parsed) ip) (netloc parsed)]\<rparr>))"
  using assms by (auto simp: attempt_defs split: option.splits)

lemma default_attempt_unresolved:
  assumes "urlparse rt url = Inr parsed"
    and "case gethostbyname rt (events s) (netloc parsed) of
           Inl e \<Rightarrow> True | Inr ip \<Rightarrow> ip = []"
  shows "download_with_custom_dns rt url p nm None s
       = (False, s\<lparr>events := events s @ [HostLookup (netloc parsed)]\<rparr>)"
  using assms by (auto simp: attempt_defs split: sum.splits)

lemma default_attempt_no_response:
  assumes "urlparse rt url = Inr parsed"
    and "gethostbyname rt (events s) (netloc parsed) = Inr ip"
    and "ip \<noteq> []"
    and "requests_get rt (events s @ [HostLookup (netloc parsed)])
           (py_replace url (netloc parsed) ip) (netloc parsed) = Inl e"
  shows "download_with_custom_dns rt url p nm None s
       = (False, s\<lparr>events := events s @ [HostLookup (netloc parsed),
                     HttpGet (py_replace url (netloc parsed) ip) (netloc parsed)]\<rparr>)"
  using assms by (simp add: attempt_defs)

lemma default_attempt_response:
  assumes "urlparse rt url = Inr parsed"
    and "gethostbyname rt (events s) (netloc parsed) = Inr ip"
    and "ip \<noteq> []"
    and "requests_get rt (events s @ [HostLookup (netloc parsed)])
           (py_replace url (netloc parsed) ip) (netloc parsed) = Inr r"
  shows "download_with_custom_dns rt url p nm None s
       = (if status_code r = 200 \<and> startswith (content_type_header r) ''image/''
          then (case open_wb rt (events s @ [HostLookup (netloc parsed),
                         HttpGet (py_replace url (netloc parsed) ip) (netloc parsed)]) p of
                  None \<Rightarrow>
                    (stream_error r = None,
                     s\<lparr>events := events s @ [HostLookup (netloc parsed),
                           HttpGet (py_replace url (netloc parsed) ip) (netloc parsed)],
                       files := (files s)(p \<mapsto>
                           concat (filter (\<lambda>chunk. chunk \<noteq> []) (chunks r)))\<rparr>)
                | Some e \<Rightarrow>
                    (False,
                     s\<lparr>events := events s @ [HostLookup (netloc parsed),
                           HttpGet (py_replace url (netloc parsed) ip) (netloc parsed)]\<rparr>))
          else (False,
                s\<lparr>events := events s @ [HostLookup (netloc parsed),
                      HttpGet (py_replace url (netloc parsed) ip) (netloc parsed)]\<rparr>))"
  using assms by (auto simp: attempt_defs split: option.splits)

text \<open>
  The loop, as the chain of its attempts: \<open>ss\<close> lists the states between them, and
  \<open>ok\<close> tells whether the last one succeeded.
\<close>

lemma dns_server_loop_chain:
  "dns_server_loop rt u fp strategies s = (res, s')
   \<Longrightarrow> \<exists>k ok ss. k \<le> length strategies \<and> length ss = Suc k \<and> ss ! 0 = s \<and> ss ! k = s'
         \<and> (\<forall>j<k. download_with_custom_dns rt u fp (fst (strategies ! j)) (snd (strategies ! j))
                      ((ss ! j)\<lparr>attempts := attempts (ss ! j) @ [fst (strategies ! j)]\<rparr>)
                    = (ok \<and> Suc j = k, ss ! Suc j))
         \<and> (\<not> ok \<longrightarrow> k = length strategies) \<and> (ok \<longrightarrow> 0 < k)
         \<and> attempts s' = attempts s @ take k (map fst strategies)
         \<and> res = (if ok then Some (fst (strategies ! (k - 1))) else None)"
proof (induction strategies arbitrary: s)
  case Nil
  then have "0 \<le> length ([] :: (string \<times> string list option) list)
         \<and> length [s] = Suc 0 \<and> [s] ! 0 = s \<and> [s] ! 0 = s'
         \<and> (\<forall>j<0. download_with_custom_dns rt u fp (fst ([] ! j)) (snd ([] ! j))
                      (([s] ! j)\<lparr>attempts := attempts ([s] ! j) @ [fst ([] ! j)]\<rparr>)
                    = (False \<and> Suc j = 0, [s] ! Suc j))
         \<and> (\<not> False \<longrightarrow> 0 = length ([] :: (string \<times> string list option) list))
         \<and> (False \<longrightarrow> 0 < (0::nat))
         \<and> attempts s' = attempts s @ take 0 (map fst [])
         \<and> res = (if False then Some (fst ([] ! (0 - 1))) else None)"
    by simp
  then show ?case by blast
next
  case (Cons a rest)
  obtain dns_name servers where a: "a = (dns_name, servers)" by (cases a)
  obtain b s0 where d: "download_with_custom_dns rt u fp dns_name servers
                          (s\<lparr>attempts := attempts s @ [dns_name]\<rparr>) = (b, s0)"
    by (cases "download_with_custom_dns rt u fp dns_name servers
                 (s\<lparr>attempts := attempts s @ [dns_name]\<rparr>)")
  from download_with_custom_dns_attempts [OF d]
  have a0: "attempts s0 = attempts s @ [dns_name]" by simp
  show ?case
  proof (cases b)
    case True
    with Cons.prems a d have res: "res = Some dns_name" and s': "s' = s0" by simp_all
    have "\<forall>j<Suc 0. download_with_custom_dns rt u fp (fst ((a # rest) ! j)) (snd ((a # rest) ! j))
                      (([s, s0] ! j)\<lparr>attempts := attempts ([s, s0] ! j) @ [fst ((a # rest) ! j)]\<rparr>)
                    = (True \<and> Suc j = Suc 0, [s, s0] ! Suc j)"
      using a d True by simp
    with res s' a a0 have
      "Suc 0 \<le> length (a # rest) \<and> length [s, s0] = Suc (Suc 0)
         \<and> [s, s0] ! 0 = s \<and> [s, s0] ! Suc 0 = s'
         \<and> (\<forall>j<Suc 0. download_with_custom_dns rt u fp (fst ((a # rest) ! j)) (snd ((a # rest) ! j))
                      (([s, s0] ! j)\<lparr>attempts := attempts ([s, s0] ! j) @ [fst ((a # rest) ! j)]\<rparr>)
                    = (True \<and> Suc j = Suc 0, [s, s0] ! Suc j))
         \<and> (\<not> True \<longrightarrow> Suc 0 = length (a # rest)) \<and> (True \<longrightarrow> 0 < Suc 0)
         \<and> attempts s' = attempts s @ take (Suc 0) (map fst (a # rest))
         \<and> res = (if True then Some (fst ((a # rest) ! (Suc 0 - 1))) else None)"
      by simp
    then show ?thesis by blast
  next
    case False
    with Cons.prems a d have "dns_server_loop rt u fp rest s0 = (res, s')" by simp
    from Cons.IH [OF this] obtain k ok ss where
      k: "k \<le> length rest" and len: "length ss = Suc k"
      and first: "ss ! 0 = s0" and final: "ss ! k = s'"
      and steps: "\<forall>j<k. download_with_custom_dns rt u fp (fst (rest ! j)) (snd (rest ! j))
                      ((ss ! j)\<lparr>attempts := attempts (ss ! j) @ [fst (rest ! j)]\<rparr>)
                    = (ok \<and> Suc j = k, ss ! Suc j)"
      and all: "\<not> ok \<longrightarrow> k = length rest" and some: "ok \<longrightarrow> 0 < k"
      and att: "attempts s' = attempts s0 @ take k (map fst rest)"
      and res: "res = (if ok then Some (fst (rest ! (k - 1))) else None)"
      by blast
    have steps': "\<forall>j<Suc k.
        download_with_custom_dns rt u fp (fst ((a # rest) ! j)) (snd ((a # rest) ! j))
            (((s # ss) ! j)\<lparr>attempts := attempts ((s # ss) ! j) @ [fst ((a # rest) ! j)]\<rparr>)
          = (ok \<and> Suc j = Suc k, (s # ss) ! Suc j)"
    proof (intro allI impI)
      fix j assume j: "j < Suc k"
      show "download_with_custom_dns rt u fp (fst ((a # rest) ! j)) (snd ((a # rest) ! j))
            (((s # ss) ! j)\<lparr>attempts := attempts ((s # ss) ! j) @ [fst ((a # rest) ! j)]\<rparr>)
          = (ok \<and> Suc j = Suc k, (s # ss) ! Suc j)"
      proof (cases j)
        case 0
        from some have "\<not> (ok \<and> k = 0)" by auto
        with 0 a d False first show ?thesis by simp
      next
        case (Suc i)
        with j have "i < k" by simp
        with steps Suc show ?thesis by simp
      qed
    qed
    from res some have res': "res = (if ok then Some (fst ((a # rest) ! (Suc k - 1))) else None)"
      by (cases k) auto
    from att a0 a have att': "attempts s' = attempts s @ take (Suc k) (map fst (a # rest))"
      by simp
    from k len final all steps' res' att' have
      "Suc k \<le> length (a # rest) \<and> length (s # ss) = Suc (Suc k)
         \<and> (s # ss) ! 0 = s \<and> (s # ss) ! Suc k = s'
         \<and> (\<forall>j<Suc k.
              download_with_custom_dns rt u fp (fst ((a # rest) ! j)) (snd ((a # rest) ! j))
                 (((s # ss) ! j)\<lparr>attempts := attempts ((s # ss) ! j) @ [fst ((a # rest) ! j)]\<rparr>)
               = (ok \<and> Suc j = Suc k, (s # ss) ! Suc j))
         \<and> (\<not> ok \<longrightarrow> Suc k = length (a # rest)) \<and> (ok \<longrightarrow> 0 < Suc k)
         \<and> attempts s' = attempts s @ take (Suc k) (map fst (a # rest))
         \<and> res = (if ok then Some (fst ((a # rest) ! (Suc k - 1))) else None)"
      by simp
    then show ?thesis by blast
  qed
qed

text \<open>
  The loop passes over strategies whose name-server lists give no address: each leaves its
  name in the log and its query among the network calls.
\<close>

lemma dns_server_loop_unresolved:
  assumes parse: "urlparse rt u = Inr parsed"
  shows "length nms = length qs \<Longrightarrow> \<forall>q\<in>set qs. q \<noteq> []
     \<Longrightarrow> \<forall>j<length qs.
           (case dns_resolve rt (events s @ map (\<lambda>q. DnsQuery q (netloc parsed)) (take j qs))
                   (qs ! j) (netloc parsed) of
              Inl e \<Rightarrow> True | Inr answers \<Rightarrow> answers = [] \<or> hd answers = [])
     \<Longrightarrow> dns_server_loop rt u fp (zip nms (map Some qs) @ later) s
       = dns_server_loop rt u fp later
           (s\<lparr>attempts := attempts s @ nms,
              events := events s @ map (\<lambda>q. DnsQuery q (netloc parsed)) qs\<rparr>)"
proof (induction qs arbitrary: nms s)
  case Nil
  then show ?case by simp
next
  case (Cons q qs)
  from Cons.prems(1) obtain nm nms' where nms: "nms = nm # nms'" and len: "length nms' = length qs"
    by (cases nms) auto
  from Cons.prems(2) obtain x xs where q: "q = x # xs" by (cases q) auto
  from Cons.prems(2) have ne: "\<forall>q\<in>set qs. q \<noteq> []" by simp
  let ?s0 = "s\<lparr>attempts := attempts s @ [nm]\<rparr>"
  let ?s1 = "s\<lparr>attempts := attempts s @ [nm],
               events := events s @ [DnsQuery q (netloc parsed)]\<rparr>"
  from Cons.prems(3) have "case dns_resolve rt (events s) q (netloc parsed) of
              Inl e \<Rightarrow> True | Inr answers \<Rightarrow> answers = [] \<or> hd answers = []"
    by fastforce
  then have "case dns_resolve rt (events ?s0) (x # xs) (netloc parsed) of
              Inl e \<Rightarrow> True | Inr answers \<Rightarrow> answers = [] \<or> hd answers = []"
    using q by simp
  from custom_attempt_unresolved [OF parse this, of fp nm] q
  have step: "download_with_custom_dns rt u fp nm (Some q) ?s0 = (False, ?s1)" by simp
  have "\<forall>j<length qs.
           (case dns_resolve rt (events ?s1 @ map (\<lambda>q. DnsQuery q (netloc parsed)) (take j qs))
                   (qs ! j) (netloc parsed) of
              Inl e \<Rightarrow> True | Inr answers \<Rightarrow> answers = [] \<or> hd answers = [])"
  proof (intro allI impI)
    fix j assume "j < length qs"
    then have "Suc j < length (q # qs)" by simp
    with Cons.prems(3) have
      "case dns_resolve rt (events s @ map (\<lambda>q. DnsQuery q (netloc parsed)) (take (Suc j) (q # qs)))
                   ((q # qs) ! Suc j) (netloc parsed) of
              Inl e \<Rightarrow> True | Inr answers \<Rightarrow> answers = [] \<or> hd answers = []"
      by blast
    then show "case dns_resolve rt (events ?s1 @ map (\<lambda>q. DnsQuery q (netloc parsed)) (take j qs))
                   (qs ! j) (netloc parsed) of
              Inl e \<Rightarrow> True | Inr answers \<Rightarrow> answers = [] \<or> hd answers = []"
      by simp
  qed
  from Cons.IH [OF len ne this] step nms show ?case by simp
qed

lemma DNS_SERVERS_zip:
  assumes "names = [''Google DNS'', ''Cloudflare DNS'', ''OpenDNS'', ''Quad9'', ''Default DNS'']"
    and "custom = [[''8.8.8.8'', ''8.8.4.4''], [''1.1.1.1'', ''1.0.0.1''],
                   [''208.67.222.222'', ''208.67.220.220''], [''9.9.9.9'', ''149.112.112.112'']]"
  shows "DNS_SERVERS = zip names (map Some custom @ [None])"
    and "DNS_SERVERS = zip (take 4 names) (map Some custom) @ [(''Default DNS'', None)]"
    and "k < 4 \<Longrightarrow> \<exists>later. DNS_SERVERS = zip (take k names) (map Some (take k custom))
                                      @ (names ! k, Some (custom ! k)) # later"
    and "\<forall>q\<in>set custom. q \<noteq> []"
    and "length names = 5" and "length custom = 4"
proof -
  show "DNS_SERVERS = zip names (map Some custom @ [None])"
    and "DNS_SERVERS = zip (take 4 names) (map Some custom) @ [(''Default DNS'', None)]"
    and "\<forall>q\<in>set custom. q \<noteq> []" and "length names = 5" and "length custom = 4"
    unfolding assms by (simp_all add: DNS_SERVERS_def)
  assume "k < 4"
  then consider "k = 0" | "k = 1" | "k = 2" | "k = 3" by linarith
  then show "\<exists>later. DNS_SERVERS = zip (take k names) (map Some (take k custom))
                          @ (names ! k, Some (custom ! k)) # later"
    unfolding assms by cases (simp_all add: DNS_SERVERS_def)
qed

text \<open>
  The loop over \<open>DNS_SERVERS\<close> when the name-server lists before the \<open>k\<close>-th give no
  address and the \<open>k\<close>-th gives one, from which the image is fetched and saved.
\<close>

lemma dns_server_loop_custom:
  assumes parse: "urlparse rt u = Inr parsed"
    and names: "names = [''Google DNS'', ''Cloudflare DNS'', ''OpenDNS'', ''Quad9'', ''Default DNS'']"
    and custom: "custom = [[''8.8.8.8'', ''8.8.4.4''], [''1.1.1.1'', ''1.0.0.1''],
                   [''208.67.222.222'', ''208.67.220.220''], [''9.9.9.9'', ''149.112.112.112'']]"
    and k: "k < 4"
    and un: "\<forall>j<k. (case dns_resolve rt
                          (events s @ map (\<lambda>q. DnsQuery q (netloc parsed)) (take j custom))
                          (custom ! j) (netloc parsed) of
                     Inl e \<Rightarrow> True | Inr answers \<Rightarrow> answers = [] \<or> hd answers = [])"
    and res: "dns_resolve rt (events s @ map (\<lambda>q. DnsQuery q (netloc parsed)) (take k custom))
                 (custom ! k) (netloc parsed) = Inr (ip # others)"
    and ip: "ip \<noteq> []"
    and req: "requests_get rt
                 (events s @ map (\<lambda>q. DnsQuery q (netloc parsed)) (take (Suc k) custom))
                 (py_replace u (netloc parsed) ip) (netloc parsed) = Inr r"
    and ok: "status_code r = 200" "startswith (content_type_header r) ''image/''"
    and opened: "open_wb rt
                 (events s @ map (\<lambda>q. DnsQuery q (netloc parsed)) (take (Suc k) custom)
                  @ [HttpGet (py_replace u (netloc parsed) ip) (netloc parsed)]) fp = None"
    and whole: "stream_error r = None"
  shows "dns_server_loop rt u fp DNS_SERVERS s
       = (Some (names ! k),
          s\<lparr>attempts := attempts s @ take (Suc k) names,
            events := events s @ map (\<lambda>q. DnsQuery q (netloc parsed)) (take (Suc k) custom)
                      @ [HttpGet (py_replace u (netloc parsed) ip) (netloc parsed)],
            files := (files s)(fp \<mapsto> concat (filter (\<lambda>chunk. chunk \<noteq> []) (chunks r)))\<rparr>)"
proof -
  note shape = DNS_SERVERS_zip [OF names custom]
  from shape(3) [OF k] obtain later where
    split: "DNS_SERVERS = zip (take k names) (map Some (take k custom))
                            @ (names ! k, Some (custom ! k)) # later"
    by blast
  from k shape(5,6) have lens: "length (take k names) = length (take k custom)" by simp
  from shape(4) have ne: "\<forall>q\<in>set (take k custom). q \<noteq> []"
    by (meson in_set_takeD)
  from k shape(4,6) obtain x xs where q: "custom ! k = x # xs"
    by (cases "custom ! k") auto
  have un': "\<forall>j<length (take k custom).
           (case dns_resolve rt
                   (events s @ map (\<lambda>q. DnsQuery q (netloc parsed)) (take j (take k custom)))
                   (take k custom ! j) (netloc parsed) of
              Inl e \<Rightarrow> True | Inr answers \<Rightarrow> answers = [] \<or> hd answers = [])"
  proof (intro allI impI)
    fix j assume "j < length (take k custom)"
    then have j: "j < k" by simp
    then have "take j (take k custom) = take j custom" and "take k custom ! j = custom ! j"
      by (simp_all add: min_def)
    with un j show "case dns_resolve rt
                   (events s @ map (\<lambda>q. DnsQuery q (netloc parsed)) (take j (take k custom)))
                   (take k custom ! j) (netloc parsed) of
              Inl e \<Rightarrow> True | Inr answers \<Rightarrow> answers = [] \<or> hd answers = []"
      by simp
  qed
  let ?sk = "s\<lparr>attempts := attempts s @ take k names,
               events := events s @ map (\<lambda>q. DnsQuery q (netloc parsed)) (take k custom)\<rparr>"
  let ?s0 = "?sk\<lparr>attempts := attempts ?sk @ [names ! k]\<rparr>"
  from dns_server_loop_unresolved [OF parse lens ne un', of fp "(names ! k, Some (custom ! k)) # later"]
    split
  have skip: "dns_server_loop rt u fp DNS_SERVERS s
       = dns_server_loop rt u fp ((names ! k, Some (custom ! k)) # later) ?sk"
    by simp
  from k shape(5,6) have tk: "take (Suc k) names = take k names @ [names ! k]"
    "take (Suc k) custom = take k custom @ [custom ! k]"
    by (simp_all add: take_Suc_conv_app_nth)
  from res q have res': "dns_resolve rt (events ?s0) (x # xs) (netloc parsed) = Inr (ip # others)"
    by simp
  from req q tk have req': "requests_get rt (events ?s0 @ [DnsQuery (x # xs) (netloc parsed)])
           (py_replace u (netloc parsed) ip) (netloc parsed) = Inr r"
    by simp
  from opened q tk have opened': "open_wb rt (events ?s0 @ [DnsQuery (x # xs) (netloc parsed),
                         HttpGet (py_replace u (netloc parsed) ip) (netloc parsed)]) fp = None"
    by simp
  from custom_attempt_response [OF parse res' ip req', of fp "names ! k"] ok opened' whole q tk
  have "download_with_custom_dns rt u fp (names ! k) (Some (custom ! k)) ?s0
       = (True,
          s\<lparr>attempts := attempts s @ take (Suc k) names,
            events := events s @ map (\<lambda>q. DnsQuery q (netloc parsed)) (take (Suc k) custom)
                      @ [HttpGet (py_replace u (netloc parsed) ip) (netloc parsed)],
            files := (files s)(fp \<mapsto> concat (filter (\<lambda>chunk. chunk \<noteq> []) (chunks r)))\<rparr>)"
    by simp
  with skip show ?thesis by simp
qed

text \<open>
  The loop when none of the four name-server lists gives an address: the system resolver
  is asked last, and either the image is fetched from its address and saved, or nothing
  is left to try.
\<close>

lemma dns_server_loop_reaches_default:
  assumes parse: "urlparse rt u = Inr parsed"
    and names: "names = [''Google DNS'', ''Cloudflare DNS'', ''OpenDNS'', ''Quad9'', ''Default DNS'']"
    and custom: "custom = [[''8.8.8.8'', ''8.8.4.4''], [''1.1.1.1'', ''1.0.0.1''],
                   [''208.67.222.222'', ''208.67.220.220''], [''9.9.9.9'', ''149.112.112.112'']]"
    and un: "\<forall>j<4. (case dns_resolve rt
                          (events s @ map (\<lambda>q. DnsQuery q (netloc parsed)) (take j custom))
                          (custom ! j) (netloc parsed) of
                     Inl e \<Rightarrow> True | Inr answers \<Rightarrow> answers = [] \<or> hd answers = [])"
  shows "dns_server_loop rt u fp DNS_SERVERS s
       = (case download_with_custom_dns rt u fp ''Default DNS'' None
                 (s\<lparr>attempts := attempts s @ names,
                    events := events s @ map (\<lambda>q. DnsQuery q (netloc parsed)) custom\<rparr>) of
            (True, s') \<Rightarrow> (Some ''Default DNS'', s')
          | (False, s') \<Rightarrow> (None, s'))"
proof -
  note shape = DNS_SERVERS_zip [OF names custom]
  from shape(5,6) have lens: "length (take 4 names) = length custom" by simp
  from un shape(6) have un': "\<forall>j<length custom.
           (case dns_resolve rt
                   (events s @ map (\<lambda>q. DnsQuery q (netloc parsed)) (take j custom))
                   (custom ! j) (netloc parsed) of
              Inl e \<Rightarrow> True | Inr answers \<Rightarrow> answers = [] \<or> hd answers = [])"
    by simp
  from dns_server_loop_unresolved [OF parse lens shape(4) un', of fp "[(''Default DNS'', None)]"]
    shape(2)
  have skip: "dns_server_loop rt u fp DNS_SERVERS s
       = dns_server_loop rt u fp [(''Default DNS'', None)]
           (s\<lparr>attempts := attempts s @ take 4 names,
              events := events s @ map (\<lambda>q. DnsQuery q (netloc parsed)) custom\<rparr>)"
    by simp
  let ?s4 = "s\<lparr>attempts := attempts s @ names,
               events := events s @ map (\<lambda>q. DnsQuery q (netloc parsed)) custom\<rparr>"
  have "take 4 names @ [''Default DNS''] = names" unfolding names by simp
  then have eq: "s\<lparr>attempts := attempts s @ take 4 names,
              events := events s @ map (\<lambda>q. DnsQuery q (netloc parsed)) custom,
              attempts := attempts s @ take 4 names @ [''Default DNS'']\<rparr> = ?s4"
    by simp
  obtain b s0 where d: "download_with_custom_dns rt u fp ''Default DNS'' None ?s4 = (b, s0)"
    by (cases "download_with_custom_dns rt u fp ''Default DNS'' None ?s4")
  have "dns_server_loop rt u fp [(''Default DNS'', None)]
           (s\<lparr>attempts := attempts s @ take 4 names,
              events := events s @ map (\<lambda>q. DnsQuery q (netloc parsed)) custom\<rparr>)
        = (if b then Some ''Default DNS'' else None, s0)"
    using d eq by (cases b) simp_all
  with skip d show ?thesis by (cases b) simp_all
qed

text \<open>
  C8. The strategies are the five of \<open>DNS_SERVERS\<close> in the order written there, the
  system resolver last. For a row that reaches the loop (its address is a string that is
  not blank, its name is a string and its file \<open>fp\<close> is not on disk), a run of
  \<open>process_scholar\<close> is a chain of \<open>k\<close> attempts, one to five, the \<open>j\<close>-th made
  with the \<open>j\<close>-th strategy and logged under its name: every attempt but the last fails,
  the last one either succeeds, and then the dictionary returned has \<open>success\<close> true and
  names the strategy of that attempt, or fails, and then all five strategies were tried and
  the dictionary has \<open>success\<close> false and \<open>None\<close>.

  What an attempt asks of the network follows the strategy: when the name-server lists
  before the \<open>k\<close>-th give no address and the \<open>k\<close>-th gives one from which the image is
  fetched and saved, the dictionary names the \<open>k\<close>-th strategy and the network calls are
  the queries to the first \<open>k + 1\<close> lists, in order, and the one request; when none of
  the four lists gives an address, \<^verbatim>\<open>gethostbyname\<close> is called after the four
  queries, and the dictionary names \<^verbatim>\<open>Default DNS\<close> when the image is fetched from
  the address it returns, and reports the failure when it returns none.
\<close>

theorem strategies_tried_in_declared_order:
  assumes url: "row_get row ''image_url'' (PStr []) = PStr u"
    and nonblank: "strip (isspace rt) u \<noteq> []"
    and name: "row_get row ''name'' (PStr ''unknown'') = PStr n"
    and fp: "fp = os_path_join ''scholar_photos_dns''
                    (py_format (row_get row ''id'' (PStr [])) @ ''_''
                     @ py_replace (py_replace (py_replace n '' '' ''_'') ''.'' []) '','' []
                     @ ''.jpg'')"
    and new: "files s fp = None"
    and names: "names = [''Google DNS'', ''Cloudflare DNS'', ''OpenDNS'', ''Quad9'', ''Default DNS'']"
    and custom: "custom = [[''8.8.8.8'', ''8.8.4.4''], [''1.1.1.1'', ''1.0.0.1''],
                   [''208.67.222.222'', ''208.67.220.220''], [''9.9.9.9'', ''149.112.112.112'']]"
  shows "DNS_SERVERS = zip names (map Some custom @ [None])
     \<and> (process_scholar rt row s = (r, s')
        \<longrightarrow> (\<exists>k ok ss.
               0 < k \<and> k \<le> 5 \<and> length ss = Suc k \<and> ss ! 0 = s \<and> ss ! k = s'
             \<and> (\<forall>j<k. download_with_custom_dns rt u fp (names ! j)
                           ((map Some custom @ [None]) ! j)
                           ((ss ! j)\<lparr>attempts := attempts (ss ! j) @ [names ! j]\<rparr>)
                        = (ok \<and> Suc j = k, ss ! Suc j))
             \<and> (\<not> ok \<longrightarrow> k = 5)
             \<and> attempts s' = attempts s @ take k names
             \<and> r = Inr [(''scholar_id'', row_get row ''id'' (PStr [])), (''name'', PStr n),
                        (''success'', PBool ok),
                        (''successful_dns'', if ok then PStr (names ! (k - 1)) else PNone)]))
     \<and> (urlparse rt u = Inr \<lparr>netloc = d, path = pth\<rparr> \<and> i < 4
        \<and> (\<forall>j<i. (case dns_resolve rt (events s @ map (\<lambda>q. DnsQuery q d) (take j custom))
                          (custom ! j) d of
                     Inl e \<Rightarrow> True | Inr answers \<Rightarrow> answers = [] \<or> hd answers = []))
        \<and> dns_resolve rt (events s @ map (\<lambda>q. DnsQuery q d) (take i custom)) (custom ! i) d
            = Inr (ip # others)
        \<and> ip \<noteq> []
        \<and> requests_get rt (events s @ map (\<lambda>q. DnsQuery q d) (take (Suc i) custom))
              (py_replace u d ip) d = Inr resp
        \<and> status_code resp = 200 \<and> startswith (content_type_header resp) ''image/''
        \<and> open_wb rt (events s @ map (\<lambda>q. DnsQuery q d) (take (Suc i) custom)
                        @ [HttpGet (py_replace u d ip) d]) fp = None
        \<and> stream_error resp = None
        \<longrightarrow> process_scholar rt row s
            = (Inr [(''scholar_id'', row_get row ''id'' (PStr [])), (''name'', PStr n),
                    (''success'', PBool True), (''successful_dns'', PStr (names ! i))],
               s\<lparr>attempts := attempts s @ take (Suc i) names,
                 events := events s @ map (\<lambda>q. DnsQuery q d) (take (Suc i) custom)
                           @ [HttpGet (py_replace u d ip) d],
                 files := (files s)(fp \<mapsto>
                            concat (filter (\<lambda>chunk. chunk \<noteq> []) (chunks resp)))\<rparr>))
     \<and> (urlparse rt u = Inr \<lparr>netloc = d, path = pth\<rparr>
        \<and> (\<forall>j<4. (case dns_resolve rt (events s @ map (\<lambda>q. DnsQuery q d) (take j custom))
                          (custom ! j) d of
                     Inl e \<Rightarrow> True | Inr answers \<Rightarrow> answers = [] \<or> hd answers = []))
        \<and> gethostbyname rt (events s @ map (\<lambda>q. DnsQuery q d) custom) d = Inr ip
        \<and> ip \<noteq> []
        \<and> requests_get rt (events s @ map (\<lambda>q. DnsQuery q d) custom @ [HostLookup d])
              (py_replace u d ip) d = Inr resp
        \<and> status_code resp = 200 \<and> startswith (content_type_header resp) ''image/''
        \<and> open_wb rt (events s @ map (\<lambda>q. DnsQuery q d) custom
                        @ [HostLookup d, HttpGet (py_replace u d ip) d]) fp = None
        \<and> stream_error resp = None
        \<longrightarrow> process_scholar rt row s
            = (Inr [(''scholar_id'', row_get row ''id'' (PStr [])), (''name'', PStr n),
                    (''success'', PBool True), (''successful_dns'', PStr ''Default DNS'')],
               s\<lparr>attempts := attempts s @ names,
                 events := events s @ map (\<lambda>q. DnsQuery q d) custom
                           @ [HostLookup d, HttpGet (py_replace u d ip) d],
                 files := (files s)(fp \<mapsto>
                            concat (filter (\<lambda>chunk. chunk \<noteq> []) (chunks resp)))\<rparr>))
     \<and> (urlparse rt u = Inr \<lparr>netloc = d, path = pth\<rparr>
        \<and> (\<forall>j<4. (case dns_resolve rt (events s @ map (\<lambda>q. DnsQuery q d) (take j custom))
                          (custom ! j) d of
                     Inl e \<Rightarrow> True | Inr answers \<Rightarrow> answers = [] \<or> hd answers = []))
        \<and> (case gethostbyname rt (events s @ map (\<lambda>q. DnsQuery q d) custom) d of
              Inl e \<Rightarrow> True | Inr ip \<Rightarrow> ip = [])
        \<longrightarrow> process_scholar rt row s
            = (Inr [(''scholar_id'', row_get row ''id'' (PStr [])), (''name'', PStr n),
                    (''success'', PBool False), (''successful_dns'', PNone)],
               s\<lparr>attempts := attempts s @ names,
                 events := events s @ map (\<lambda>q. DnsQuery q d) custom @ [HostLookup d]\<rparr>))"
proof -
  note shape = DNS_SERVERS_zip [OF names custom]
  note enters = process_scholar_enters_loop [OF url nonblank name fp, of s]
  let ?id = "row_get row ''id'' (PStr [])"
  have chain: "\<exists>k ok ss.
               0 < k \<and> k \<le> 5 \<and> length ss = Suc k \<and> ss ! 0 = s \<and> ss ! k = s'
             \<and> (\<forall>j<k. download_with_custom_dns rt u fp (names ! j)
                           ((map Some custom @ [None]) ! j)
                           ((ss ! j)\<lparr>attempts := attempts (ss ! j) @ [names ! j]\<rparr>)
                        = (ok \<and> Suc j = k, ss ! Suc j))
             \<and> (\<not> ok \<longrightarrow> k = 5)
             \<and> attempts s' = attempts s @ take k names
             \<and> r = Inr [(''scholar_id'', ?id), (''name'', PStr n), (''success'', PBool ok),
                        (''successful_dns'', if ok then PStr (names ! (k - 1)) else PNone)]"
    if run: "process_scholar rt row s = (r, s')"
  proof -
    obtain res s0 where loop: "dns_server_loop rt u fp DNS_SERVERS s = (res, s0)"
      by (cases "dns_server_loop rt u fp DNS_SERVERS s")
    from run enters new loop have s0: "s0 = s'"
      and r: "r = (case res of
                     Some dns_name \<Rightarrow>
                       Inr [(''scholar_id'', ?id), (''name'', PStr n), (''success'', PBool True),
                            (''successful_dns'', PStr dns_name)]
                   | None \<Rightarrow>
                       Inr [(''scholar_id'', ?id), (''name'', PStr n), (''success'', PBool False),
                            (''successful_dns'', PNone)])"
      by (auto split: option.splits)
    have len: "length DNS_SERVERS = 5" unfolding shape(1) using shape(5,6) by simp
    have fsts: "map fst DNS_SERVERS = names" unfolding shape(1) using shape(5,6) by simp
    have nth: "DNS_SERVERS ! j = (names ! j, (map Some custom @ [None]) ! j)" if "j < 5" for j
      unfolding shape(1) using that shape(5,6) by simp
    from dns_server_loop_chain [OF loop] len fsts s0 obtain k ok ss where
      k: "k \<le> 5" and lss: "length ss = Suc k" and first: "ss ! 0 = s" and final: "ss ! k = s'"
      and steps: "\<forall>j<k. download_with_custom_dns rt u fp (fst (DNS_SERVERS ! j))
                      (snd (DNS_SERVERS ! j))
                      ((ss ! j)\<lparr>attempts := attempts (ss ! j) @ [fst (DNS_SERVERS ! j)]\<rparr>)
                    = (ok \<and> Suc j = k, ss ! Suc j)"
      and all: "\<not> ok \<longrightarrow> k = 5" and some: "ok \<longrightarrow> 0 < k"
      and att: "attempts s' = attempts s @ take k names"
      and res: "res = (if ok then Some (fst (DNS_SERVERS ! (k - 1))) else None)"
      by auto
    from all some have pos: "0 < k" by (cases ok) auto
    have steps': "\<forall>j<k. download_with_custom_dns rt u fp (names ! j)
                           ((map Some custom @ [None]) ! j)
                           ((ss ! j)\<lparr>attempts := attempts (ss ! j) @ [names ! j]\<rparr>)
                        = (ok \<and> Suc j = k, ss ! Suc j)"
    proof (intro allI impI)
      fix j assume j: "j < k"
      with k have "j < 5" by simp
      from nth [OF this] steps [rule_format, OF j]
      show "download_with_custom_dns rt u fp (names ! j) ((map Some custom @ [None]) ! j)
                           ((ss ! j)\<lparr>attempts := attempts (ss ! j) @ [names ! j]\<rparr>)
                        = (ok \<and> Suc j = k, ss ! Suc j)"
        by simp
    qed
    from pos k have "k - 1 < 5" by simp
    from nth [OF this] res r
    have r': "r = Inr [(''scholar_id'', ?id), (''name'', PStr n), (''success'', PBool ok),
                        (''successful_dns'', if ok then PStr (names ! (k - 1)) else PNone)]"
      by simp
    from pos k lss first final steps' all att r' have
      "0 < k \<and> k \<le> 5 \<and> length ss = Suc k \<and> ss ! 0 = s \<and> ss ! k = s'
             \<and> (\<forall>j<k. download_with_custom_dns rt u fp (names ! j)
                           ((map Some custom @ [None]) ! j)
                           ((ss ! j)\<lparr>attempts := attempts (ss ! j) @ [names ! j]\<rparr>)
                        = (ok \<and> Suc j = k, ss ! Suc j))
             \<and> (\<not> ok \<longrightarrow> k = 5)
             \<and> attempts s' = attempts s @ take k names
             \<and> r = Inr [(''scholar_id'', ?id), (''name'', PStr n), (''success'', PBool ok),
                        (''successful_dns'', if ok then PStr (names ! (k - 1)) else PNone)]"
      by simp
    then show ?thesis by (intro exI)
  qed
  have by_list: "process_scholar rt row s
            = (Inr [(''scholar_id'', ?id), (''name'', PStr n),
                    (''success'', PBool True), (''successful_dns'', PStr (names ! i))],
               s\<lparr>attempts := attempts s @ take (Suc i) names,
                 events := events s @ map (\<lambda>q. DnsQuery q d) (take (Suc i) custom)
                           @ [HttpGet (py_replace u d ip) d],
                 files := (files s)(fp \<mapsto>
                            concat (filter (\<lambda>chunk. chunk \<noteq> []) (chunks resp)))\<rparr>)"
    if parse: "urlparse rt u = Inr \<lparr>netloc = d, path = pth\<rparr>" and i: "i < 4"
      and un: "\<forall>j<i. (case dns_resolve rt (events s @ map (\<lambda>q. DnsQuery q d) (take j custom))
                          (custom ! j) d of
                     Inl e \<Rightarrow> True | Inr answers \<Rightarrow> answers = [] \<or> hd answers = [])"
      and res: "dns_resolve rt (events s @ map (\<lambda>q. DnsQuery q d) (take i custom)) (custom ! i) d
            = Inr (ip # others)"
      and ip: "ip \<noteq> []"
      and req: "requests_get rt (events s @ map (\<lambda>q. DnsQuery q d) (take (Suc i) custom))
              (py_replace u d ip) d = Inr resp"
      and ok: "status_code resp = 200" "startswith (content_type_header resp) ''image/''"
      and opened: "open_wb rt (events s @ map (\<lambda>q. DnsQuery q d) (take (Suc i) custom)
                        @ [HttpGet (py_replace u d ip) d]) fp = None"
      and whole: "stream_error resp = None"
  proof -
    from dns_server_loop_custom [OF parse names custom i, of s ip others resp fp]
      un res ip req ok opened whole
    have "dns_server_loop rt u fp DNS_SERVERS s
       = (Some (names ! i),
          s\<lparr>attempts := attempts s @ take (Suc i) names,
            events := events s @ map (\<lambda>q. DnsQuery q d) (take (Suc i) custom)
                      @ [HttpGet (py_replace u d ip) d],
            files := (files s)(fp \<mapsto> concat (filter (\<lambda>chunk. chunk \<noteq> []) (chunks resp)))\<rparr>)"
      by simp
    with enters new show ?thesis by simp
  qed
  have default: "dns_server_loop rt u fp DNS_SERVERS s
       = (case download_with_custom_dns rt u fp ''Default DNS'' None
                 (s\<lparr>attempts := attempts s @ names,
                    events := events s @ map (\<lambda>q. DnsQuery q d) custom\<rparr>) of
            (True, s') \<Rightarrow> (Some ''Default DNS'', s')
          | (False, s') \<Rightarrow> (None, s'))"
    if parse: "urlparse rt u = Inr \<lparr>netloc = d, path = pth\<rparr>"
      and un: "\<forall>j<4. (case dns_resolve rt (events s @ map (\<lambda>q. DnsQuery q d) (take j custom))
                          (custom ! j) d of
                     Inl e \<Rightarrow> True | Inr answers \<Rightarrow> answers = [] \<or> hd answers = [])"
    for d pth
    using dns_server_loop_reaches_default [OF parse names custom, of s fp] un by simp
  have by_system: "process_scholar rt row s
            = (Inr [(''scholar_id'', ?id), (''name'', PStr n),
                    (''success'', PBool True), (''successful_dns'', PStr ''Default DNS'')],
               s\<lparr>attempts := attempts s @ names,
                 events := events s @ map (\<lambda>q. DnsQuery q d) custom
                           @ [HostLookup d, HttpGet (py_replace u d ip) d],
                 files := (files s)(fp \<mapsto>
                            concat (filter (\<lambda>chunk. chunk \<noteq> []) (chunks resp)))\<rparr>)"
    if parse: "urlparse rt u = Inr \<lparr>netloc = d, path = pth\<rparr>"
      and un: "\<forall>j<4. (case dns_resolve rt (events s @ map (\<lambda>q. DnsQuery q d) (take j custom))
                          (custom ! j) d of
                     Inl e \<Rightarrow> True | Inr answers \<Rightarrow> answers = [] \<or> hd answers = [])"
      and res: "gethostbyname rt (events s @ map (\<lambda>q. DnsQuery q d) custom) d = Inr ip"
      and ip: "ip \<noteq> []"
      and req: "requests_get rt (events s @ map (\<lambda>q. DnsQuery q d) custom @ [HostLookup d])
              (py_replace u d ip) d = Inr resp"
      and ok: "status_code resp = 200" "startswith (content_type_header resp) ''image/''"
      and opened: "open_wb rt (events s @ map (\<lambda>q. DnsQuery q d) custom
                        @ [HostLookup d, HttpGet (py_replace u d ip) d]) fp = None"
      and whole: "stream_error resp = None"
  proof -
    let ?s4 = "s\<lparr>attempts := attempts s @ names,
                 events := events s @ map (\<lambda>q. DnsQuery q d) custom\<rparr>"
    from default_attempt_response [OF parse, of ?s4 ip resp fp "''Default DNS''"]
      res ip req ok opened whole
    have "download_with_custom_dns rt u fp ''Default DNS'' None ?s4
        = (True,
           s\<lparr>attempts := attempts s @ names,
             events := events s @ map (\<lambda>q. DnsQuery q d) custom
                       @ [HostLookup d, HttpGet (py_replace u d ip) d],
             files := (files s)(fp \<mapsto>
                        concat (filter (\<lambda>chunk. chunk \<noteq> []) (chunks resp)))\<rparr>)"
      by simp
    with default [OF parse un] enters new show ?thesis by simp
  qed
  have by_none: "process_scholar rt row s
            = (Inr [(''scholar_id'', ?id), (''name'', PStr n),
                    (''success'', PBool False), (''successful_dns'', PNone)],
               s\<lparr>attempts := attempts s @ names,
                 events := events s @ map (\<lambda>q. DnsQuery q d) custom @ [HostLookup d]\<rparr>)"
    if parse: "urlparse rt u = Inr \<lparr>netloc = d, path = pth\<rparr>"
      and un: "\<forall>j<4. (case dns_resolve rt (events s @ map (\<lambda>q. DnsQuery q d) (take j custom))
                          (custom ! j) d of
                     Inl e \<Rightarrow> True | Inr answers \<Rightarrow> answers = [] \<or> hd answers = [])"
      and res: "case gethostbyname rt (events s @ map (\<lambda>q. DnsQuery q d) custom) d of
              Inl e \<Rightarrow> True | Inr ip \<Rightarrow> ip = []"
  proof -
    let ?s4 = "s\<lparr>attempts := attempts s @ names,
                 events := events s @ map (\<lambda>q. DnsQuery q d) custom\<rparr>"
    from default_attempt_unresolved [OF parse, of ?s4 fp "''Default DNS''"] res
    have "download_with_custom_dns rt u fp ''Default DNS'' None ?s4
        = (False,
           s\<lparr>attempts := attempts s @ names,
             events := events s @ map (\<lambda>q. DnsQuery q d) custom @ [HostLookup d]\<rparr>)"
      by simp
    with default [OF parse un] enters new show ?thesis by simp
  qed
  from shape(1) chain by_list by_system by_none show ?thesis by blast
qed

lemma example_row_url:
  "row_get (example_row (PStr ''https://www.westpac.com.au/a.jpg'')) ''image_url'' (PStr [])
     = PStr ''https://www.westpac.com.au/a.jpg''"
  "row_get (example_row (PStr ''https://www.westpac.com.au/a.jpg'')) ''name'' (PStr ''unknown'')
     = PStr ''Jane Doe''"
  by (simp_all add: example_row_get)

lemma example_row_dns_path:
  "''scholar_photos_dns/42_Jane_Doe.jpg''
     = os_path_join ''scholar_photos_dns''
         (py_format (row_get (example_row (PStr ''https://www.westpac.com.au/a.jpg'')) ''id''
                       (PStr [])) @ ''_''
          @ py_replace (py_replace (py_replace ''Jane Doe'' '' '' ''_'') ''.'' []) '','' []
          @ ''.jpg'')"
  by (simp add: example_row_get run_strings)

lemma example_row_photo_path:
  "''scholar_photos/42_Jane_Doe.jpg''
     = os_path_join ''scholar_photos''
         (py_format (row_get (example_row (PStr ''https://www.westpac.com.au/a.jpg'')) ''id''
                       (PStr [])) @ ''_''
          @ py_replace (re_sub_name latin1_isalnum latin1_isspace ''Jane Doe'') '' '' ''_''
          @ (if snd (splitext ''/a.jpg'') \<noteq> [] then snd (splitext ''/a.jpg'') else ''.jpg''))"
  by (simp add: example_row_get run_strings)

lemma empty_state_no_file: "files empty_state p = None"
  by (simp add: empty_state_def)

lemmas run_runtime = cloudflare_runtime_def system_only_runtime_def answering_runtime_def
  example_runtime_def simple_urlparse_def startswith_def

lemma runtime_tables:
  "isspace cloudflare_runtime = latin1_isspace"
  "isspace system_only_runtime = latin1_isspace"
  "isspace (answering_runtime r) = latin1_isspace"
  "isalnum (answering_runtime r) = latin1_isalnum"
  by (simp_all add: run_runtime)

lemma example_url_parsed:
  "urlparse cloudflare_runtime ''https://www.westpac.com.au/a.jpg''
     = Inr \<lparr>netloc = ''www.westpac.com.au'', path = ''/a.jpg''\<rparr>"
  "urlparse system_only_runtime ''https://www.westpac.com.au/a.jpg''
     = Inr \<lparr>netloc = ''www.westpac.com.au'', path = ''/a.jpg''\<rparr>"
  "urlparse example_runtime ''https://www.westpac.com.au/a.jpg''
     = Inr \<lparr>netloc = ''www.westpac.com.au'', path = ''/a.jpg''\<rparr>"
  "urlparse (answering_runtime r) ''https://www.westpac.com.au/a.jpg''
     = Inr \<lparr>netloc = ''www.westpac.com.au'', path = ''/a.jpg''\<rparr>"
  by (simp_all add: run_runtime)

lemma example_ip_url:
  "py_replace ''https://www.westpac.com.au/a.jpg'' ''www.westpac.com.au'' ''203.0.113.7''
     = ''https://203.0.113.7/a.jpg''"
  by (simp add: run_strings)

lemma image_accepted:
  "status_code image_response = 200"
  "status_code image_response < 400 \<or> 600 \<le> status_code image_response"
  "startswith (content_type_header image_response) ''image/''"
  "stream_error image_response = None"
  "chunks image_response = [''JF'', ''IF'']"
  by (simp_all add: image_response_def content_type_header_def startswith_def)

text \<open>
  Three networks. Google's servers fail and Cloudflare's answer: two attempts, the second
  one named. Only the system resolver answers: five attempts, \<^verbatim>\<open>gethostbyname\<close>
  called after the four queries, \<^verbatim>\<open>Default DNS\<close> named. Nothing answers: five
  attempts and the failure.
\<close>

theorem strategies_tried_in_declared_order_witness:
  "process_scholar cloudflare_runtime (example_row (PStr ''https://www.westpac.com.au/a.jpg''))
      empty_state
   = (Inr [(''scholar_id'', PInt 42), (''name'', PStr ''Jane Doe''),
           (''success'', PBool True), (''successful_dns'', PStr ''Cloudflare DNS'')],
      cloudflare_final)
   \<and> (\<exists>k ok ss.
         0 < k \<and> k \<le> 5 \<and> length ss = Suc k \<and> ss ! 0 = empty_state \<and> ss ! k = cloudflare_final
       \<and> (\<forall>j<k. download_with_custom_dns cloudflare_runtime ''https://www.westpac.com.au/a.jpg''
                     ''scholar_photos_dns/42_Jane_Doe.jpg''
                     ([''Google DNS'', ''Cloudflare DNS'', ''OpenDNS'', ''Quad9'', ''Default DNS''] ! j)
                     ((map Some [[''8.8.8.8'', ''8.8.4.4''], [''1.1.1.1'', ''1.0.0.1''],
                                 [''208.67.222.222'', ''208.67.220.220''],
                                 [''9.9.9.9'', ''149.112.112.112'']] @ [None]) ! j)
                     ((ss ! j)\<lparr>attempts := attempts (ss ! j)
                        @ [[''Google DNS'', ''Cloudflare DNS'', ''OpenDNS'', ''Quad9'',
                            ''Default DNS''] ! j]\<rparr>)
                  = (ok \<and> Suc j = k, ss ! Suc j))
       \<and> (\<not> ok \<longrightarrow> k = 5)
       \<and> attempts cloudflare_final
         = attempts empty_state
           @ take k [''Google DNS'', ''Cloudflare DNS'', ''OpenDNS'', ''Quad9'', ''Default DNS'']
       \<and> (Inr [(''scholar_id'', PInt 42), (''name'', PStr ''Jane Doe''),
                (''success'', PBool True), (''successful_dns'', PStr ''Cloudflare DNS'')]
            :: exn + (string \<times> pyval) list)
         = Inr [(''scholar_id'',
                 row_get (example_row (PStr ''https://www.westpac.com.au/a.jpg'')) ''id'' (PStr [])),
                (''name'', PStr ''Jane Doe''), (''success'', PBool ok),
                (''successful_dns'',
                 if ok then PStr ([''Google DNS'', ''Cloudflare DNS'', ''OpenDNS'', ''Quad9'',
                                   ''Default DNS''] ! (k - 1))
                 else PNone)])
   \<and> process_scholar system_only_runtime (example_row (PStr ''https://www.westpac.com.au/a.jpg''))
      empty_state
   = (Inr [(''scholar_id'', PInt 42), (''name'', PStr ''Jane Doe''),
           (''success'', PBool True), (''successful_dns'', PStr ''Default DNS'')],
      \<lparr>files = [''scholar_photos_dns/42_Jane_Doe.jpg'' \<mapsto> ''JFIF''],
       events = [DnsQuery [''8.8.8.8'', ''8.8.4.4''] ''www.westpac.com.au'',
                 DnsQuery [''1.1.1.1'', ''1.0.0.1''] ''www.westpac.com.au'',
                 DnsQuery [''208.67.222.222'', ''208.67.220.220''] ''www.westpac.com.au'',
                 DnsQuery [''9.9.9.9'', ''149.112.112.112''] ''www.westpac.com.au'',
                 HostLookup ''www.westpac.com.au'',
                 HttpGet ''https://203.0.113.7/a.jpg'' ''www.westpac.com.au''],
       attempts = [''Google DNS'', ''Cloudflare DNS'', ''OpenDNS'', ''Quad9'', ''Default DNS'']\<rparr>)
   \<and> process_scholar example_runtime (example_row (PStr ''https://www.westpac.com.au/a.jpg''))
      empty_state
   = (Inr [(''scholar_id'', PInt 42), (''name'', PStr ''Jane Doe''),
           (''success'', PBool False), (''successful_dns'', PNone)],
      \<lparr>files = Map.empty,
       events = [DnsQuery [''8.8.8.8'', ''8.8.4.4''] ''www.westpac.com.au'',
                 DnsQuery [''1.1.1.1'', ''1.0.0.1''] ''www.westpac.com.au'',
                 DnsQuery [''208.67.222.222'', ''208.67.220.220''] ''www.westpac.com.au'',
                 DnsQuery [''9.9.9.9'', ''149.112.112.112''] ''www.westpac.com.au'',
                 HostLookup ''www.westpac.com.au''],
       attempts = [''Google DNS'', ''Cloudflare DNS'', ''OpenDNS'', ''Quad9'', ''Default DNS'']\<rparr>)"
proof -
  have nb: "strip (isspace cloudflare_runtime) ''https://www.westpac.com.au/a.jpg'' \<noteq> []"
    "strip (isspace system_only_runtime) ''https://www.westpac.com.au/a.jpg'' \<noteq> []"
    "strip (isspace example_runtime) ''https://www.westpac.com.au/a.jpg'' \<noteq> []"
    using example_url_nonblank by (simp_all add: runtime_tables example_tables)
  note by_list = strategies_tried_in_declared_order
    [where rt = cloudflare_runtime and s = empty_state
       and d = "''www.westpac.com.au''" and pth = "''/a.jpg''" and i = 1
       and ip = "''203.0.113.7''" and others = "[]" and resp = image_response,
     OF example_row_url(1) nb(1) example_row_url(2) example_row_dns_path empty_state_no_file
       refl refl, THEN conjunct2, THEN conjunct2, THEN conjunct1]
  have run: "process_scholar cloudflare_runtime
      (example_row (PStr ''https://www.westpac.com.au/a.jpg'')) empty_state
   = (Inr [(''scholar_id'', PInt 42), (''name'', PStr ''Jane Doe''),
           (''success'', PBool True), (''successful_dns'', PStr ''Cloudflare DNS'')],
      cloudflare_final)"
    using by_list
    by (simp add: example_ip_url example_row_get run_runtime empty_state_def
        cloudflare_final_def image_response_def content_type_header_def)
  note chain = strategies_tried_in_declared_order
    [where rt = cloudflare_runtime and s = empty_state,
     OF example_row_url(1) nb(1) example_row_url(2) example_row_dns_path empty_state_no_file
       refl refl, THEN conjunct2, THEN conjunct1, THEN mp, OF run]
  note by_system = strategies_tried_in_declared_order
    [where rt = system_only_runtime and s = empty_state
       and d = "''www.westpac.com.au''" and pth = "''/a.jpg''"
       and ip = "''203.0.113.7''" and resp = image_response,
     OF example_row_url(1) nb(2) example_row_url(2) example_row_dns_path empty_state_no_file
       refl refl, THEN conjunct2, THEN conjunct2, THEN conjunct2, THEN conjunct1]
  have run_system: "process_scholar system_only_runtime
      (example_row (PStr ''https://www.westpac.com.au/a.jpg'')) empty_state
   = (Inr [(''scholar_id'', PInt 42), (''name'', PStr ''Jane Doe''),
           (''success'', PBool True), (''successful_dns'', PStr ''Default DNS'')],
      \<lparr>files = [''scholar_photos_dns/42_Jane_Doe.jpg'' \<mapsto> ''JFIF''],
       events = [DnsQuery [''8.8.8.8'', ''8.8.4.4''] ''www.westpac.com.au'',
                 DnsQuery [''1.1.1.1'', ''1.0.0.1''] ''www.westpac.com.au'',
                 DnsQuery [''208.67.222.222'', ''208.67.220.220''] ''www.westpac.com.au'',
                 DnsQuery [''9.9.9.9'', ''149.112.112.112''] ''www.westpac.com.au'',
                 HostLookup ''www.westpac.com.au'',
                 HttpGet ''https://203.0.113.7/a.jpg'' ''www.westpac.com.au''],
       attempts = [''Google DNS'', ''Cloudflare DNS'', ''OpenDNS'', ''Quad9'', ''Default DNS'']\<rparr>)"
    using by_system
    by (simp add: example_ip_url example_row_get run_runtime empty_state_def
        image_response_def content_type_header_def)
  note by_none = strategies_tried_in_declared_order
    [where rt = example_runtime and s = empty_state
       and d = "''www.westpac.com.au''" and pth = "''/a.jpg''",
     OF example_row_url(1) nb(3) example_row_url(2) example_row_dns_path empty_state_no_file
       refl refl, THEN conjunct2, THEN conjunct2, THEN conjunct2, THEN conjunct2]
  have run_none: "process_scholar example_runtime
      (example_row (PStr ''https://www.westpac.com.au/a.jpg'')) empty_state
   = (Inr [(''scholar_id'', PInt 42), (''name'', PStr ''Jane Doe''),
           (''success'', PBool False), (''successful_dns'', PNone)],
      \<lparr>files = Map.empty,
       events = [DnsQuery [''8.8.8.8'', ''8.8.4.4''] ''www.westpac.com.au'',
                 DnsQuery [''1.1.1.1'', ''1.0.0.1''] ''www.westpac.com.au'',
                 DnsQuery [''208.67.222.222'', ''208.67.220.220''] ''www.westpac.com.au'',
                 DnsQuery [''9.9.9.9'', ''149.112.112.112''] ''www.westpac.com.au'',
                 HostLookup ''www.westpac.com.au''],
       attempts = [''Google DNS'', ''Cloudflare DNS'', ''OpenDNS'', ''Quad9'', ''Default DNS'']\<rparr>)"
    using by_none
    by (simp add: example_row_get run_runtime empty_state_def)
  from run chain run_system run_none show ?thesis by (intro conjI)
qed

section \<open>What is done with a response\<close>

text \<open>
  The loop of \<open>download_image\<close> passes over the addresses whose request fails with a
  RequestException or whose response \<open>raise_for_status\<close> or the content type turns
  down: each is requested once and nothing is written.
\<close>

lemma try_urls_turned_down:
  "\<forall>j<length pre.
      (case session_get rt create_session (events s @ map SessionGet (take j pre)) (pre ! j) of
         Inl e \<Rightarrow> e = RequestException
       | Inr r \<Rightarrow> (400 \<le> status_code r \<and> status_code r < 600)
                  \<or> \<not> startswith (content_type_header r) ''image/'')
   \<Longrightarrow> try_urls rt fp (pre @ post) s
       = try_urls rt fp post (s\<lparr>events := events s @ map SessionGet pre\<rparr>)"
proof (induction pre arbitrary: s)
  case Nil
  show ?case by simp
next
  case (Cons a pre)
  let ?s1 = "s\<lparr>events := events s @ [SessionGet a]\<rparr>"
  from Cons.prems have "case session_get rt create_session (events s) a of
         Inl e \<Rightarrow> e = RequestException
       | Inr r \<Rightarrow> (400 \<le> status_code r \<and> status_code r < 600)
                  \<or> \<not> startswith (content_type_header r) ''image/''"
    by fastforce
  then have step: "try_url rt fp a s = (Continue, ?s1)"
    by (auto simp: try_url_def check_and_save_image_def raise_for_status_def
        except_request_exception_def Let_def split: sum.splits)
  have "\<forall>j<length pre.
      (case session_get rt create_session (events ?s1 @ map SessionGet (take j pre)) (pre ! j) of
         Inl e \<Rightarrow> e = RequestException
       | Inr r \<Rightarrow> (400 \<le> status_code r \<and> status_code r < 600)
                  \<or> \<not> startswith (content_type_header r) ''image/'')"
  proof (intro allI impI)
    fix j assume "j < length pre"
    then have "Suc j < length (a # pre)" by simp
    with Cons.prems have
      "case session_get rt create_session (events s @ map SessionGet (take (Suc j) (a # pre)))
              ((a # pre) ! Suc j) of
         Inl e \<Rightarrow> e = RequestException
       | Inr r \<Rightarrow> (400 \<le> status_code r \<and> status_code r < 600)
                  \<or> \<not> startswith (content_type_header r) ''image/''"
      by blast
    then show "case session_get rt create_session (events ?s1 @ map SessionGet (take j pre))
              (pre ! j) of
         Inl e \<Rightarrow> e = RequestException
       | Inr r \<Rightarrow> (400 \<le> status_code r \<and> status_code r < 600)
                  \<or> \<not> startswith (content_type_header r) ''image/''"
      by simp
  qed
  from Cons.IH [OF this] step show ?case by simp
qed

text \<open>
  One round of the loop on a response that \<open>raise_for_status\<close> and the content type let
  pass: the chunks go to \<open>filepath\<close>, and the path is returned when the stream ends
  without an exception.
\<close>

lemma try_url_passed:
  assumes "session_get rt create_session (events s) a = Inr r"
    and "status_code r < 400 \<or> 600 \<le> status_code r"
    and "startswith (content_type_header r) ''image/''"
    and "open_wb rt (events s @ [SessionGet a]) fp = None"
  shows "try_url rt fp a s
       = (case stream_error r of None \<Rightarrow> Return fp | Some e \<Rightarrow> except_request_exception e,
          s\<lparr>events := events s @ [SessionGet a],
            files := (files s)(fp \<mapsto> concat (chunks r))\<rparr>)"
  using assms
  by (auto simp: try_url_def check_and_save_image_def raise_for_status_def Let_def
      split: option.splits)

lemma try_urls_exhausted:
  assumes "\<forall>j<length urls.
      (case session_get rt create_session (events s @ map SessionGet (take j urls)) (urls ! j) of
         Inl e \<Rightarrow> e = RequestException
       | Inr r \<Rightarrow> (400 \<le> status_code r \<and> status_code r < 600)
                  \<or> \<not> startswith (content_type_header r) ''image/'')"
  shows "try_urls rt fp urls s = (Inr None, s\<lparr>events := events s @ map SessionGet urls\<rparr>)"
  using try_urls_turned_down [OF assms, of fp "[]"] by simp

lemma take_take_nth:
  assumes "j < k"
  shows "take j (take k xs) = take j xs" and "k \<le> length xs \<Longrightarrow> take k xs ! j = xs ! j"
  using assms by (simp_all add: min_def)

lemma try_urls_saved:
  assumes k: "k < length urls"
    and before: "\<forall>j<k.
      (case session_get rt create_session (events s @ map SessionGet (take j urls)) (urls ! j) of
         Inl e \<Rightarrow> e = RequestException
       | Inr r \<Rightarrow> (400 \<le> status_code r \<and> status_code r < 600)
                  \<or> \<not> startswith (content_type_header r) ''image/'')"
    and resp: "session_get rt create_session (events s @ map SessionGet (take k urls)) (urls ! k)
               = Inr r"
    and ok: "status_code r < 400 \<or> 600 \<le> status_code r"
      "startswith (content_type_header r) ''image/''"
    and opened: "open_wb rt (events s @ map SessionGet (take (Suc k) urls)) fp = None"
  shows "try_urls rt fp urls s
       = (case stream_error r of
            None \<Rightarrow>
              (Inr (Some fp),
               s\<lparr>events := events s @ map SessionGet (take (Suc k) urls),
                 files := (files s)(fp \<mapsto> concat (chunks r))\<rparr>)
          | Some e \<Rightarrow>
              if e = RequestException
              then try_urls rt fp (drop (Suc k) urls)
                     (s\<lparr>events := events s @ map SessionGet (take (Suc k) urls),
                       files := (files s)(fp \<mapsto> concat (chunks r))\<rparr>)
              else (Inl e,
                    s\<lparr>events := events s @ map SessionGet (take (Suc k) urls),
                      files := (files s)(fp \<mapsto> concat (chunks r))\<rparr>))"
proof -
  from k have split: "urls = take k urls @ urls ! k # drop (Suc k) urls"
    by (rule id_take_nth_drop)
  from k have tk: "take (Suc k) urls = take k urls @ [urls ! k]"
    by (rule take_Suc_conv_app_nth)
  have before': "\<forall>j<length (take k urls).
      (case session_get rt create_session (events s @ map SessionGet (take j (take k urls)))
              (take k urls ! j) of
         Inl e \<Rightarrow> e = RequestException
       | Inr r \<Rightarrow> (400 \<le> status_code r \<and> status_code r < 600)
                  \<or> \<not> startswith (content_type_header r) ''image/'')"
  proof (intro allI impI)
    fix j assume "j < length (take k urls)"
    with k have j: "j < k" by simp
    from take_take_nth [OF j, of urls] k before j
    show "case session_get rt create_session (events s @ map SessionGet (take j (take k urls)))
              (take k urls ! j) of
         Inl e \<Rightarrow> e = RequestException
       | Inr r \<Rightarrow> (400 \<le> status_code r \<and> status_code r < 600)
                  \<or> \<not> startswith (content_type_header r) ''image/''"
      by simp
  qed
  let ?sk = "s\<lparr>events := events s @ map SessionGet (take k urls)\<rparr>"
  from try_urls_turned_down [OF before', of fp "urls ! k # drop (Suc k) urls"] split
  have skip: "try_urls rt fp urls s = try_urls rt fp (urls ! k # drop (Suc k) urls) ?sk"
    by simp
  from resp have resp': "session_get rt create_session (events ?sk) (urls ! k) = Inr r" by simp
  from opened tk have opened': "open_wb rt (events ?sk @ [SessionGet (urls ! k)]) fp = None"
    by simp
  from try_url_passed [OF resp' ok opened'] tk
  have "try_url rt fp (urls ! k) ?sk
       = (case stream_error r of None \<Rightarrow> Return fp | Some e \<Rightarrow> except_request_exception e,
          s\<lparr>events := events s @ map SessionGet (take (Suc k) urls),
            files := (files s)(fp \<mapsto> concat (chunks r))\<rparr>)"
    by simp
  with skip show ?thesis
    by (simp add: except_request_exception_def split: option.splits)
qed

lemma candidates_distinct:
  assumes "generate_alternative_urls rt url scholar_id year = Inr urls"
  shows "distinct urls"
proof (cases "url = []")
  case True
  then show ?thesis using assms by (simp add: generate_alternative_urls_def)
next
  case False
  with assms obtain alts where "urls = list_of_set (set_slot rt) alts"
    by (auto simp: generate_alternative_urls_def split: sum.splits)
  then show ?thesis by (simp add: list_of_set_distinct)
qed

text \<open>
  The loop of \<open>process_scholar\<close> on a network in which every resolver gives the address
  \<open>ip\<close> and every request gets the response \<open>r\<close>, when \<open>r\<close> is turned down.
\<close>

lemma dns_server_loop_all_turned_down:
  assumes parse: "urlparse rt u = Inr \<lparr>netloc = d, path = pth\<rparr>"
    and res: "\<forall>h q. dns_resolve rt h q d = Inr [ip]" "\<forall>h. gethostbyname rt h d = Inr ip"
    and ip: "ip \<noteq> []"
    and req: "\<forall>h. requests_get rt h (py_replace u d ip) d = Inr r"
    and no: "\<not> (status_code r = 200 \<and> startswith (content_type_header r) ''image/'')"
  shows "dns_server_loop rt u fq DNS_SERVERS s
       = (None,
          s\<lparr>attempts := attempts s
               @ [''Google DNS'', ''Cloudflare DNS'', ''OpenDNS'', ''Quad9'', ''Default DNS''],
            events := events s
               @ [DnsQuery [''8.8.8.8'', ''8.8.4.4''] d, HttpGet (py_replace u d ip) d,
                  DnsQuery [''1.1.1.1'', ''1.0.0.1''] d, HttpGet (py_replace u d ip) d,
                  DnsQuery [''208.67.222.222'', ''208.67.220.220''] d,
                  HttpGet (py_replace u d ip) d,
                  DnsQuery [''9.9.9.9'', ''149.112.112.112''] d, HttpGet (py_replace u d ip) d,
                  HostLookup d, HttpGet (py_replace u d ip) d]\<rparr>)"
proof -
  have by_list: "download_with_custom_dns rt u fq nm (Some (x # xs)) s0
       = (False, s0\<lparr>events := events s0 @ [DnsQuery (x # xs) d, HttpGet (py_replace u d ip) d]\<rparr>)"
    for nm x xs s0
    using custom_attempt_response [OF parse, of s0 x xs ip "[]" r fq nm] res ip req no by auto
  have by_system: "download_with_custom_dns rt u fq nm None s0
       = (False, s0\<lparr>events := events s0 @ [HostLookup d, HttpGet (py_replace u d ip) d]\<rparr>)"
    for nm s0
    using default_attempt_response [OF parse, of s0 ip r fq nm] res ip req no by auto
  show ?thesis by (simp add: DNS_SERVERS_def by_list by_system)
qed

text \<open>
  C6, as the code has it. An attempt of \<open>download_with_custom_dns\<close> that gets a response
  takes it exactly when its status is 200 and its content type begins with
  \<^verbatim>\<open>image/\<close>: then it writes the body to \<open>output_path\<close> and returns \<open>True\<close> (or
  \<open>False\<close>, when the file cannot be opened or the stream breaks); any other response
  leaves the disk as it was and the attempt returns \<open>False\<close>. The loop of
  \<open>process_scholar\<close> then goes on to the next strategy and requests the same address
  again: when every strategy resolves the name and every response is turned down, the
  address is requested five times. \<open>download_image\<close> takes what \<open>session.get\<close> hands
  back exactly when \<open>raise_for_status\<close> lets it pass, that is when the status is not in
  [400, 600), and the content type begins with \<^verbatim>\<open>image/\<close>: the candidates before the
  first response taken are each requested once, in the order of the list, and nothing is
  written for them; and when every candidate is turned down the function returns \<open>None\<close>
  having requested each once, no address twice.
\<close>

theorem responses_checked_as_coded:
  assumes url: "row_get row ''image_url'' (PStr []) = PStr u"
    and nonblank: "strip (isspace rt) u \<noteq> []"
    and name: "row_get row ''name'' (PStr ''unknown'') = PStr n"
    and parse: "urlparse rt u = Inr \<lparr>netloc = d, path = pth\<rparr>"
    and fp: "fp = os_path_join ''scholar_photos''
                    (py_format (row_get row ''id'' (PStr [])) @ ''_''
                     @ py_replace (re_sub_name (isalnum rt) (isspace rt) n) '' '' ''_''
                     @ (if snd (splitext pth) \<noteq> [] then snd (splitext pth) else ''.jpg''))"
    and fq: "fq = os_path_join ''scholar_photos_dns''
                    (py_format (row_get row ''id'' (PStr [])) @ ''_''
                     @ py_replace (py_replace (py_replace n '' '' ''_'') ''.'' []) '','' []
                     @ ''.jpg'')"
    and urls: "generate_alternative_urls rt u (row_get row ''id'' (PStr []))
                 (row_get row ''year'' (PStr [])) = Inr urls"
  shows "(dns_resolve rt (events s) (x # xs) d = Inr (ip # others) \<and> ip \<noteq> []
          \<and> requests_get rt (events s @ [DnsQuery (x # xs) d]) (py_replace u d ip) d = Inr r
          \<longrightarrow> download_with_custom_dns rt u p nm (Some (x # xs)) s
              = (if status_code r = 200 \<and> startswith (content_type_header r) ''image/''
                 then (case open_wb rt (events s @ [DnsQuery (x # xs) d,
                                                    HttpGet (py_replace u d ip) d]) p of
                         None \<Rightarrow>
                           (stream_error r = None,
                            s\<lparr>events := events s @ [DnsQuery (x # xs) d,
                                                    HttpGet (py_replace u d ip) d],
                              files := (files s)(p \<mapsto>
                                  concat (filter (\<lambda>chunk. chunk \<noteq> []) (chunks r)))\<rparr>)
                       | Some e \<Rightarrow>
                           (False,
                            s\<lparr>events := events s @ [DnsQuery (x # xs) d,
                                                    HttpGet (py_replace u d ip) d]\<rparr>))
                 else (False,
                       s\<lparr>events := events s @ [DnsQuery (x # xs) d,
                                               HttpGet (py_replace u d ip) d]\<rparr>)))
       \<and> (gethostbyname rt (events s) d = Inr ip \<and> ip \<noteq> []
          \<and> requests_get rt (events s @ [HostLookup d]) (py_replace u d ip) d = Inr r
          \<longrightarrow> download_with_custom_dns rt u p nm None s
              = (if status_code r = 200 \<and> startswith (content_type_header r) ''image/''
                 then (case open_wb rt (events s @ [HostLookup d,
                                                    HttpGet (py_replace u d ip) d]) p of
                         None \<Rightarrow>
                           (stream_error r = None,
                            s\<lparr>events := events s @ [HostLookup d, HttpGet (py_replace u d ip) d],
                              files := (files s)(p \<mapsto>
                                  concat (filter (\<lambda>chunk. chunk \<noteq> []) (chunks r)))\<rparr>)
                       | Some e \<Rightarrow>
                           (False,
                            s\<lparr>events := events s @ [HostLookup d,
                                                    HttpGet (py_replace u d ip) d]\<rparr>))
                 else (False,
                       s\<lparr>events := events s @ [HostLookup d, HttpGet (py_replace u d ip) d]\<rparr>)))
       \<and> (files s fq = None
          \<and> (\<forall>h q. dns_resolve rt h q d = Inr [ip]) \<and> (\<forall>h. gethostbyname rt h d = Inr ip)
          \<and> ip \<noteq> []
          \<and> (\<forall>h. requests_get rt h (py_replace u d ip) d = Inr r)
          \<and> \<not> (status_code r = 200 \<and> startswith (content_type_header r) ''image/'')
          \<longrightarrow> process_scholar rt row s
              = (Inr [(''scholar_id'', row_get row ''id'' (PStr [])), (''name'', PStr n),
                      (''success'', PBool False), (''successful_dns'', PNone)],
                 s\<lparr>attempts := attempts s
                      @ [''Google DNS'', ''Cloudflare DNS'', ''OpenDNS'', ''Quad9'', ''Default DNS''],
                   events := events s
                      @ [DnsQuery [''8.8.8.8'', ''8.8.4.4''] d, HttpGet (py_replace u d ip) d,
                         DnsQuery [''1.1.1.1'', ''1.0.0.1''] d, HttpGet (py_replace u d ip) d,
                         DnsQuery [''208.67.222.222'', ''208.67.220.220''] d,
                         HttpGet (py_replace u d ip) d,
                         DnsQuery [''9.9.9.9'', ''149.112.112.112''] d,
                         HttpGet (py_replace u d ip) d,
                         HostLookup d, HttpGet (py_replace u d ip) d]\<rparr>))
       \<and> (files s fp = None \<and> k < length urls
          \<and> (\<forall>j<k. (case session_get rt create_session
                             (events s @ map SessionGet (take j urls)) (urls ! j) of
                       Inl e \<Rightarrow> e = RequestException
                     | Inr r \<Rightarrow> (400 \<le> status_code r \<and> status_code r < 600)
                                \<or> \<not> startswith (content_type_header r) ''image/''))
          \<and> session_get rt create_session (events s @ map SessionGet (take k urls)) (urls ! k)
              = Inr r
          \<and> (status_code r < 400 \<or> 600 \<le> status_code r)
          \<and> startswith (content_type_header r) ''image/''
          \<and> open_wb rt (events s @ map SessionGet (take (Suc k) urls)) fp = None
          \<and> stream_error r = None
          \<longrightarrow> download_image rt row s
              = (Inr (Some fp),
                 s\<lparr>events := events s @ map SessionGet (take (Suc k) urls),
                   files := (files s)(fp \<mapsto> concat (chunks r))\<rparr>))
       \<and> (files s fp = None
          \<and> (\<forall>j<length urls.
                (case session_get rt create_session
                        (events s @ map SessionGet (take j urls)) (urls ! j) of
                   Inl e \<Rightarrow> e = RequestException
                 | Inr r \<Rightarrow> (400 \<le> status_code r \<and> status_code r < 600)
                            \<or> \<not> startswith (content_type_header r) ''image/''))
          \<longrightarrow> download_image rt row s
                = (Inr None, s\<lparr>events := events s @ map SessionGet urls\<rparr>)
              \<and> distinct urls)"
proof -
  have fp': "fp = os_path_join ''scholar_photos''
                    (py_format (row_get row ''id'' (PStr [])) @ ''_''
                     @ py_replace (re_sub_name (isalnum rt) (isspace rt) n) '' '' ''_''
                     @ (if snd (splitext (path \<lparr>netloc = d, path = pth\<rparr>)) \<noteq> []
                        then snd (splitext (path \<lparr>netloc = d, path = pth\<rparr>)) else ''.jpg''))"
    using fp by simp
  note image = download_image_enters_loop [OF url nonblank name parse fp', of s]
  note scholar = process_scholar_enters_loop [OF url nonblank name fq, of s]
  have a: "download_with_custom_dns rt u p nm (Some (x # xs)) s
              = (if status_code r = 200 \<and> startswith (content_type_header r) ''image/''
                 then (case open_wb rt (events s @ [DnsQuery (x # xs) d,
                                                    HttpGet (py_replace u d ip) d]) p of
                         None \<Rightarrow>
                           (stream_error r = None,
                            s\<lparr>events := events s @ [DnsQuery (x # xs) d,
                                                    HttpGet (py_replace u d ip) d],
                              files := (files s)(p \<mapsto>
                                  concat (filter (\<lambda>chunk. chunk \<noteq> []) (chunks r)))\<rparr>)
                       | Some e \<Rightarrow>
                           (False,
                            s\<lparr>events := events s @ [DnsQuery (x # xs) d,
                                                    HttpGet (py_replace u d ip) d]\<rparr>))
                 else (False,
                       s\<lparr>events := events s @ [DnsQuery (x # xs) d,
                                               HttpGet (py_replace u d ip) d]\<rparr>))"
    if "dns_resolve rt (events s) (x # xs) d = Inr (ip # others)" "ip \<noteq> []"
      "requests_get rt (events s @ [DnsQuery (x # xs) d]) (py_replace u d ip) d = Inr r"
    using custom_attempt_response [OF parse, of s x xs ip others r p nm] that
    by (simp split: option.splits)
  have b: "download_with_custom_dns rt u p nm None s
              = (if status_code r = 200 \<and> startswith (content_type_header r) ''image/''
                 then (case open_wb rt (events s @ [HostLookup d,
                                                    HttpGet (py_replace u d ip) d]) p of
                         None \<Rightarrow>
                           (stream_error r = None,
                            s\<lparr>events := events s @ [HostLookup d, HttpGet (py_replace u d ip) d],
                              files := (files s)(p \<mapsto>
                                  concat (filter (\<lambda>chunk. chunk \<noteq> []) (chunks r)))\<rparr>)
                       | Some e \<Rightarrow>
                           (False,
                            s\<lparr>events := events s @ [HostLookup d,
                                                    HttpGet (py_replace u d ip) d]\<rparr>))
                 else (False,
                       s\<lparr>events := events s @ [HostLookup d, HttpGet (py_replace u d ip) d]\<rparr>))"
    if "gethostbyname rt (events s) d = Inr ip" "ip \<noteq> []"
      "requests_get rt (events s @ [HostLookup d]) (py_replace u d ip) d = Inr r"
    using default_attempt_response [OF parse, of s ip r p nm] that
    by (simp split: option.splits)
  have c: "process_scholar rt row s
              = (Inr [(''scholar_id'', row_get row ''id'' (PStr [])), (''name'', PStr n),
                      (''success'', PBool False), (''successful_dns'', PNone)],
                 s\<lparr>attempts := attempts s
                      @ [''Google DNS'', ''Cloudflare DNS'', ''OpenDNS'', ''Quad9'', ''Default DNS''],
                   events := events s
                      @ [DnsQuery [''8.8.8.8'', ''8.8.4.4''] d, HttpGet (py_replace u d ip) d,
                         DnsQuery [''1.1.1.1'', ''1.0.0.1''] d, HttpGet (py_replace u d ip) d,
                         DnsQuery [''208.67.222.222'', ''208.67.220.220''] d,
                         HttpGet (py_replace u d ip) d,
                         DnsQuery [''9.9.9.9'', ''149.112.112.112''] d,
                         HttpGet (py_replace u d ip) d,
                         HostLookup d, HttpGet (py_replace u d ip) d]\<rparr>)"
    if "files s fq = None"
      "\<forall>h q. dns_resolve rt h q d = Inr [ip]" "\<forall>h. gethostbyname rt h d = Inr ip"
      "ip \<noteq> []"
      "\<forall>h. requests_get rt h (py_replace u d ip) d = Inr r"
      "\<not> (status_code r = 200 \<and> startswith (content_type_header r) ''image/'')"
    using dns_server_loop_all_turned_down [OF parse that(2-6), of fq s] scholar that(1)
    by simp
  have e: "download_image rt row s
              = (Inr (Some fp),
                 s\<lparr>events := events s @ map SessionGet (take (Suc k) urls),
                   files := (files s)(fp \<mapsto> concat (chunks r))\<rparr>)"
    if "files s fp = None" "k < length urls"
      "\<forall>j<k. (case session_get rt create_session
                             (events s @ map SessionGet (take j urls)) (urls ! j) of
                       Inl e \<Rightarrow> e = RequestException
                     | Inr r \<Rightarrow> (400 \<le> status_code r \<and> status_code r < 600)
                                \<or> \<not> startswith (content_type_header r) ''image/'')"
      "session_get rt create_session (events s @ map SessionGet (take k urls)) (urls ! k)
              = Inr r"
      "status_code r < 400 \<or> 600 \<le> status_code r"
      "startswith (content_type_header r) ''image/''"
      "open_wb rt (events s @ map SessionGet (take (Suc k) urls)) fp = None"
      "stream_error r = None"
    using try_urls_saved [OF that(2-7)] that(1,8) image urls by simp
  have f: "download_image rt row s
                = (Inr None, s\<lparr>events := events s @ map SessionGet urls\<rparr>)
              \<and> distinct urls"
    if "files s fp = None"
      "\<forall>j<length urls.
                (case session_get rt create_session
                        (events s @ map SessionGet (take j urls)) (urls ! j) of
                   Inl e \<Rightarrow> e = RequestException
                 | Inr r \<Rightarrow> (400 \<le> status_code r \<and> status_code r < 600)
                            \<or> \<not> startswith (content_type_header r) ''image/'')"
    using try_urls_exhausted [OF that(2), of fp] that(1) image urls candidates_distinct [OF urls]
    by simp
  from a b c e f show ?thesis by blast
qed

lemma undated_row_get:
  "row_get undated_row ''image_url'' (PStr []) = PStr ''https://www.westpac.com.au/a.jpg''"
  "row_get undated_row ''name'' (PStr ''unknown'') = PStr ''Jane Doe''"
  "row_get undated_row ''id'' (PStr []) = PInt 42"
  "row_get undated_row ''year'' (PStr []) = PStr []"
  by (simp_all add: row_get_def undated_row_def)

lemma undated_row_paths:
  "''scholar_photos/42_Jane_Doe.jpg''
     = os_path_join ''scholar_photos''
         (py_format (row_get undated_row ''id'' (PStr [])) @ ''_''
          @ py_replace (re_sub_name latin1_isalnum latin1_isspace ''Jane Doe'') '' '' ''_''
          @ (if snd (splitext ''/a.jpg'') \<noteq> [] then snd (splitext ''/a.jpg'') else ''.jpg''))"
  "''scholar_photos_dns/42_Jane_Doe.jpg''
     = os_path_join ''scholar_photos_dns''
         (py_format (row_get undated_row ''id'' (PStr [])) @ ''_''
          @ py_replace (py_replace (py_replace ''Jane Doe'' '' '' ''_'') ''.'' []) '','' []
          @ ''.jpg'')"
  by (simp_all add: undated_row_get run_strings)

lemma undated_candidates:
  assumes "urlparse rt = simple_urlparse" "urljoin rt = simple_urljoin"
    and "set_slot rt = example_slot"
  shows "generate_alternative_urls rt ''https://www.westpac.com.au/a.jpg''
           (row_get undated_row ''id'' (PStr [])) (row_get undated_row ''year'' (PStr []))
       = Inr [''https://scholars.westpac.com.au/a.jpg'',
              ''https://www.westpac.com.au/a.jpg'',
              ''https://www.westpac.com.au/about-westpac/sustainability/initiatives-for-you/westpac-scholars/a.jpg'',
              ''https://www.westpac.com.au/content/dam/public/wsch/images/a.jpg'']"
  using assms
  by (simp add: undated_row_get generate_alternative_urls_def alternatives_built_def
      ALTERNATIVE_BASE_URLS_def simple_urlparse_def simple_urljoin_def startswith_def
      list_of_set_def example_slot_def Let_def)

lemma runtime_libraries:
  "urlparse (answering_runtime r) = simple_urlparse"
  "urljoin (answering_runtime r) = simple_urljoin"
  "set_slot (answering_runtime r) = example_slot"
  "urlparse page_then_image_runtime = simple_urlparse"
  "urljoin page_then_image_runtime = simple_urljoin"
  "set_slot page_then_image_runtime = example_slot"
  "isspace page_then_image_runtime = latin1_isspace"
  "isalnum page_then_image_runtime = latin1_isalnum"
  by (simp_all add: answering_runtime_def page_then_image_runtime_def example_runtime_def)

lemma undated_nonblank:
  "strip (isspace (answering_runtime r)) ''https://www.westpac.com.au/a.jpg'' \<noteq> []"
  "strip (isspace page_then_image_runtime) ''https://www.westpac.com.au/a.jpg'' \<noteq> []"
  using example_url_nonblank by (simp_all add: runtime_tables runtime_libraries)

lemma undated_parsed:
  "urlparse (answering_runtime r) ''https://www.westpac.com.au/a.jpg''
     = Inr \<lparr>netloc = ''www.westpac.com.au'', path = ''/a.jpg''\<rparr>"
  "urlparse page_then_image_runtime ''https://www.westpac.com.au/a.jpg''
     = Inr \<lparr>netloc = ''www.westpac.com.au'', path = ''/a.jpg''\<rparr>"
  by (simp_all add: runtime_libraries example_urlparse)

lemma undated_photo_path:
  "''scholar_photos/42_Jane_Doe.jpg''
     = os_path_join ''scholar_photos''
         (py_format (row_get undated_row ''id'' (PStr [])) @ ''_''
          @ py_replace (re_sub_name (isalnum (answering_runtime r)) (isspace (answering_runtime r))
                          ''Jane Doe'') '' '' ''_''
          @ (if snd (splitext ''/a.jpg'') \<noteq> [] then snd (splitext ''/a.jpg'') else ''.jpg''))"
  "''scholar_photos/42_Jane_Doe.jpg''
     = os_path_join ''scholar_photos''
         (py_format (row_get undated_row ''id'' (PStr [])) @ ''_''
          @ py_replace (re_sub_name (isalnum page_then_image_runtime)
                          (isspace page_then_image_runtime) ''Jane Doe'') '' '' ''_''
          @ (if snd (splitext ''/a.jpg'') \<noteq> [] then snd (splitext ''/a.jpg'') else ''.jpg''))"
  using undated_row_paths(1) by (simp_all only: runtime_tables runtime_libraries)

lemmas run_responses = html_response_def image_response_def broken_response_def
  no_content_response_def odd_status_response_def content_type_header_def

text \<open>
  A page in place of the image, with status 200: an attempt of
  \<open>download_with_custom_dns\<close> turns it down, \<open>process_scholar\<close> requests the
  address under each of the five strategies, and \<open>download_image\<close> requests each of the
  four candidates of the row once. An image with status 200 is taken by
  \<open>download_with_custom_dns\<close>; and when the first request gets the page and the second
  the image, \<open>download_image\<close> saves the image from the second candidate.
\<close>

theorem responses_checked_as_coded_witness:
  "download_with_custom_dns (answering_runtime html_response) ''https://www.westpac.com.au/a.jpg''
      ''scholar_photos_dns/42_Jane_Doe.jpg'' ''Google DNS'' (Some [''8.8.8.8'', ''8.8.4.4''])
      empty_state
   = (False,
      \<lparr>files = Map.empty,
       events = [DnsQuery [''8.8.8.8'', ''8.8.4.4''] ''www.westpac.com.au'',
                 HttpGet ''https://203.0.113.7/a.jpg'' ''www.westpac.com.au''],
       attempts = []\<rparr>)
   \<and> download_with_custom_dns (answering_runtime image_response)
      ''https://www.westpac.com.au/a.jpg'' ''scholar_photos_dns/42_Jane_Doe.jpg''
      ''Default DNS'' None empty_state
   = (True,
      \<lparr>files = [''scholar_photos_dns/42_Jane_Doe.jpg'' \<mapsto> ''JFIF''],
       events = [HostLookup ''www.westpac.com.au'',
                 HttpGet ''https://203.0.113.7/a.jpg'' ''www.westpac.com.au''],
       attempts = []\<rparr>)
   \<and> process_scholar (answering_runtime html_response) undated_row empty_state
   = (Inr [(''scholar_id'', PInt 42), (''name'', PStr ''Jane Doe''),
           (''success'', PBool False), (''successful_dns'', PNone)],
      \<lparr>files = Map.empty,
       events = [DnsQuery [''8.8.8.8'', ''8.8.4.4''] ''www.westpac.com.au'',
                 HttpGet ''https://203.0.113.7/a.jpg'' ''www.westpac.com.au'',
                 DnsQuery [''1.1.1.1'', ''1.0.0.1''] ''www.westpac.com.au'',
                 HttpGet ''https://203.0.113.7/a.jpg'' ''www.westpac.com.au'',
                 DnsQuery [''208.67.222.222'', ''208.67.220.220''] ''www.westpac.com.au'',
                 HttpGet ''https://203.0.113.7/a.jpg'' ''www.westpac.com.au'',
                 DnsQuery [''9.9.9.9'', ''149.112.112.112''] ''www.westpac.com.au'',
                 HttpGet ''https://203.0.113.7/a.jpg'' ''www.westpac.com.au'',
                 HostLookup ''www.westpac.com.au'',
                 HttpGet ''https://203.0.113.7/a.jpg'' ''www.westpac.com.au''],
       attempts = [''Google DNS'', ''Cloudflare DNS'', ''OpenDNS'', ''Quad9'', ''Default DNS'']\<rparr>)
   \<and> download_image page_then_image_runtime undated_row empty_state
   = (Inr (Some ''scholar_photos/42_Jane_Doe.jpg''),
      \<lparr>files = [''scholar_photos/42_Jane_Doe.jpg'' \<mapsto> ''JFIF''],
       events = [SessionGet ''https://scholars.westpac.com.au/a.jpg'',
                 SessionGet ''https://www.westpac.com.au/a.jpg''],
       attempts = []\<rparr>)
   \<and> download_image (answering_runtime html_response) undated_row empty_state
   = (Inr None,
      \<lparr>files = Map.empty,
       events = [SessionGet ''https://scholars.westpac.com.au/a.jpg'',
                 SessionGet ''https://www.westpac.com.au/a.jpg'',
                 SessionGet ''https://www.westpac.com.au/about-westpac/sustainability/initiatives-for-you/westpac-scholars/a.jpg'',
                 SessionGet ''https://www.westpac.com.au/content/dam/public/wsch/images/a.jpg''],
       attempts = []\<rparr>)
   \<and> distinct [''https://scholars.westpac.com.au/a.jpg'',
                ''https://www.westpac.com.au/a.jpg'',
                ''https://www.westpac.com.au/about-westpac/sustainability/initiatives-for-you/westpac-scholars/a.jpg'',
                ''https://www.westpac.com.au/content/dam/public/wsch/images/a.jpg'']"
proof -
  note page = responses_checked_as_coded
    [where rt = "answering_runtime html_response" and s = empty_state
       and x = "''8.8.8.8''" and xs = "[''8.8.4.4'']" and ip = "''203.0.113.7''"
       and others = "[]" and r = html_response
       and p = "''scholar_photos_dns/42_Jane_Doe.jpg''" and nm = "''Google DNS''",
     OF undated_row_get(1) undated_nonblank(1) undated_row_get(2) undated_parsed(1)
       undated_photo_path(1) undated_row_paths(2)
       undated_candidates [OF runtime_libraries(1-3)]]
  note image = responses_checked_as_coded
    [where rt = "answering_runtime image_response" and s = empty_state
       and ip = "''203.0.113.7''" and r = image_response
       and p = "''scholar_photos_dns/42_Jane_Doe.jpg''" and nm = "''Default DNS''",
     OF undated_row_get(1) undated_nonblank(1) undated_row_get(2) undated_parsed(1)
       undated_photo_path(1) undated_row_paths(2)
       undated_candidates [OF runtime_libraries(1-3)]]
  note second = responses_checked_as_coded
    [where rt = page_then_image_runtime and s = empty_state and k = 1 and r = image_response,
     OF undated_row_get(1) undated_nonblank(2) undated_row_get(2) undated_parsed(2)
       undated_photo_path(2) undated_row_paths(2)
       undated_candidates [OF runtime_libraries(4-6)]]
  have a: "download_with_custom_dns (answering_runtime html_response)
      ''https://www.westpac.com.au/a.jpg''
      ''scholar_photos_dns/42_Jane_Doe.jpg'' ''Google DNS'' (Some [''8.8.8.8'', ''8.8.4.4''])
      empty_state
   = (False,
      \<lparr>files = Map.empty,
       events = [DnsQuery [''8.8.8.8'', ''8.8.4.4''] ''www.westpac.com.au'',
                 HttpGet ''https://203.0.113.7/a.jpg'' ''www.westpac.com.au''],
       attempts = []\<rparr>)"
    using page [THEN conjunct1]
    by (simp add: example_ip_url run_runtime run_responses empty_state_def)
  have b: "download_with_custom_dns (answering_runtime image_response)
      ''https://www.westpac.com.au/a.jpg'' ''scholar_photos_dns/42_Jane_Doe.jpg''
      ''Default DNS'' None empty_state
   = (True,
      \<lparr>files = [''scholar_photos_dns/42_Jane_Doe.jpg'' \<mapsto> ''JFIF''],
       events = [HostLookup ''www.westpac.com.au'',
                 HttpGet ''https://203.0.113.7/a.jpg'' ''www.westpac.com.au''],
       attempts = []\<rparr>)"
    using image [THEN conjunct2, THEN conjunct1]
    by (simp add: example_ip_url run_runtime run_responses empty_state_def)
  have c: "process_scholar (answering_runtime html_response) undated_row empty_state
   = (Inr [(''scholar_id'', PInt 42), (''name'', PStr ''Jane Doe''),
           (''success'', PBool False), (''successful_dns'', PNone)],
      \<lparr>files = Map.empty,
       events = [DnsQuery [''8.8.8.8'', ''8.8.4.4''] ''www.westpac.com.au'',
                 HttpGet ''https://203.0.113.7/a.jpg'' ''www.westpac.com.au'',
                 DnsQuery [''1.1.1.1'', ''1.0.0.1''] ''www.westpac.com.au'',
                 HttpGet ''https://203.0.113.7/a.jpg'' ''www.westpac.com.au'',
                 DnsQuery [''208.67.222.222'', ''208.67.220.220''] ''www.westpac.com.au'',
                 HttpGet ''https://203.0.113.7/a.jpg'' ''www.westpac.com.au'',
                 DnsQuery [''9.9.9.9'', ''149.112.112.112''] ''www.westpac.com.au'',
                 HttpGet ''https://203.0.113.7/a.jpg'' ''www.westpac.com.au'',
                 HostLookup ''www.westpac.com.au'',
                 HttpGet ''https://203.0.113.7/a.jpg'' ''www.westpac.com.au''],
       attempts = [''Google DNS'', ''Cloudflare DNS'', ''OpenDNS'', ''Quad9'', ''Default DNS'']\<rparr>)"
    using page [THEN conjunct2, THEN conjunct2, THEN conjunct1]
    by (simp add: example_ip_url undated_row_get run_runtime run_responses empty_state_def)
  have e: "download_image page_then_image_runtime undated_row empty_state
   = (Inr (Some ''scholar_photos/42_Jane_Doe.jpg''),
      \<lparr>files = [''scholar_photos/42_Jane_Doe.jpg'' \<mapsto> ''JFIF''],
       events = [SessionGet ''https://scholars.westpac.com.au/a.jpg'',
                 SessionGet ''https://www.westpac.com.au/a.jpg''],
       attempts = []\<rparr>)"
    using second [THEN conjunct2, THEN conjunct2, THEN conjunct2, THEN conjunct1]
    by (simp add: page_then_image_runtime_def run_runtime run_responses empty_state_def)
  have f: "download_image (answering_runtime html_response) undated_row empty_state
   = (Inr None,
      \<lparr>files = Map.empty,
       events = [SessionGet ''https://scholars.westpac.com.au/a.jpg'',
                 SessionGet ''https://www.westpac.com.au/a.jpg'',
                 SessionGet ''https://www.westpac.com.au/about-westpac/sustainability/initiatives-for-you/westpac-scholars/a.jpg'',
                 SessionGet ''https://www.westpac.com.au/content/dam/public/wsch/images/a.jpg''],
       attempts = []\<rparr>)
   \<and> distinct [''https://scholars.westpac.com.au/a.jpg'',
                ''https://www.westpac.com.au/a.jpg'',
                ''https://www.westpac.com.au/about-westpac/sustainability/initiatives-for-you/westpac-scholars/a.jpg'',
                ''https://www.westpac.com.au/content/dam/public/wsch/images/a.jpg'']"
    using page [THEN conjunct2, THEN conjunct2, THEN conjunct2, THEN conjunct2]
    by (simp add: run_runtime run_responses empty_state_def)
  from a b c e f show ?thesis by simp
qed

lemmas run_dns = process_scholar_def example_row_get os_path_exists_def DNS_OUTPUT_DIR_def
  empty_state_def DNS_SERVERS_def download_with_custom_dns_def download_body_def
  resolve_domain_with_dns_def check_and_save_file_def run_runtime run_responses run_strings

lemmas run_photos = download_image_def example_row_get os_path_exists_def PHOTOS_OUTPUT_DIR_def
  empty_state_def try_url_def check_and_save_image_def raise_for_status_def
  except_request_exception_def run_runtime run_responses run_urls run_strings

lemma no_content_run:
  "process_scholar (answering_runtime no_content_response)
      (example_row (PStr ''https://www.westpac.com.au/a.jpg'')) empty_state
   = (Inr [(''scholar_id'', PInt 42), (''name'', PStr ''Jane Doe''),
           (''success'', PBool False), (''successful_dns'', PNone)],
      \<lparr>files = Map.empty,
       events = [DnsQuery [''8.8.8.8'', ''8.8.4.4''] ''www.westpac.com.au'',
                 HttpGet ''https://203.0.113.7/a.jpg'' ''www.westpac.com.au'',
                 DnsQuery [''1.1.1.1'', ''1.0.0.1''] ''www.westpac.com.au'',
                 HttpGet ''https://203.0.113.7/a.jpg'' ''www.westpac.com.au'',
                 DnsQuery [''208.67.222.222'', ''208.67.220.220''] ''www.westpac.com.au'',
                 HttpGet ''https://203.0.113.7/a.jpg'' ''www.westpac.com.au'',
                 DnsQuery [''9.9.9.9'', ''149.112.112.112''] ''www.westpac.com.au'',
                 HttpGet ''https://203.0.113.7/a.jpg'' ''www.westpac.com.au'',
                 HostLookup ''www.westpac.com.au'',
                 HttpGet ''https://203.0.113.7/a.jpg'' ''www.westpac.com.au''],
       attempts = [''Google DNS'', ''Cloudflare DNS'', ''OpenDNS'', ''Quad9'', ''Default DNS'']\<rparr>)"
  by (simp add: run_dns)

lemma html_run:
  "events (snd (process_scholar (answering_runtime html_response)
                  (example_row (PStr ''https://www.westpac.com.au/a.jpg'')) empty_state))
   = [DnsQuery [''8.8.8.8'', ''8.8.4.4''] ''www.westpac.com.au'',
      HttpGet ''https://203.0.113.7/a.jpg'' ''www.westpac.com.au'',
      DnsQuery [''1.1.1.1'', ''1.0.0.1''] ''www.westpac.com.au'',
      HttpGet ''https://203.0.113.7/a.jpg'' ''www.westpac.com.au'',
      DnsQuery [''208.67.222.222'', ''208.67.220.220''] ''www.westpac.com.au'',
      HttpGet ''https://203.0.113.7/a.jpg'' ''www.westpac.com.au'',
      DnsQuery [''9.9.9.9'', ''149.112.112.112''] ''www.westpac.com.au'',
      HttpGet ''https://203.0.113.7/a.jpg'' ''www.westpac.com.au'',
      HostLookup ''www.westpac.com.au'',
      HttpGet ''https://203.0.113.7/a.jpg'' ''www.westpac.com.au'']"
  by (simp add: run_dns)

lemma odd_status_run:
  "download_image (answering_runtime odd_status_response)
      (example_row (PStr ''https://www.westpac.com.au/a.jpg'')) empty_state
   = (Inr (Some ''scholar_photos/42_Jane_Doe.jpg''),
      \<lparr>files = [''scholar_photos/42_Jane_Doe.jpg'' \<mapsto> ''JFIF''],
       events = [SessionGet ''https://scholars.westpac.com.au/a.jpg''],
       attempts = []\<rparr>)"
  by (simp add: run_photos)

text \<open>
  C6 as stated fails: an image that comes with status 204 is turned down by
  \<open>process_scholar\<close> under every strategy; after a page with status 200 the same
  address is requested again under each of the five strategies; and \<open>download_image\<close>
  takes an image that comes with status 999.
\<close>

theorem validation_counterexample:
  "status_code no_content_response = 204
   \<and> startswith (content_type_header no_content_response) ''image/''
   \<and> process_scholar (answering_runtime no_content_response)
      (example_row (PStr ''https://www.westpac.com.au/a.jpg'')) empty_state
   = (Inr [(''scholar_id'', PInt 42), (''name'', PStr ''Jane Doe''),
           (''success'', PBool False), (''successful_dns'', PNone)],
      \<lparr>files = Map.empty,
       events = [DnsQuery [''8.8.8.8'', ''8.8.4.4''] ''www.westpac.com.au'',
                 HttpGet ''https://203.0.113.7/a.jpg'' ''www.westpac.com.au'',
                 DnsQuery [''1.1.1.1'', ''1.0.0.1''] ''www.westpac.com.au'',
                 HttpGet ''https://203.0.113.7/a.jpg'' ''www.westpac.com.au'',
                 DnsQuery [''208.67.222.222'', ''208.67.220.220''] ''www.westpac.com.au'',
                 HttpGet ''https://203.0.113.7/a.jpg'' ''www.westpac.com.au'',
                 DnsQuery [''9.9.9.9'', ''149.112.112.112''] ''www.westpac.com.au'',
                 HttpGet ''https://203.0.113.7/a.jpg'' ''www.westpac.com.au'',
                 HostLookup ''www.westpac.com.au'',
                 HttpGet ''https://203.0.113.7/a.jpg'' ''www.westpac.com.au''],
       attempts = [''Google DNS'', ''Cloudflare DNS'', ''OpenDNS'', ''Quad9'', ''Default DNS'']\<rparr>)
   \<and> events (snd (process_scholar (answering_runtime html_response)
                  (example_row (PStr ''https://www.westpac.com.au/a.jpg'')) empty_state))
   = [DnsQuery [''8.8.8.8'', ''8.8.4.4''] ''www.westpac.com.au'',
      HttpGet ''https://203.0.113.7/a.jpg'' ''www.westpac.com.au'',
      DnsQuery [''1.1.1.1'', ''1.0.0.1''] ''www.westpac.com.au'',
      HttpGet ''https://203.0.113.7/a.jpg'' ''www.westpac.com.au'',
      DnsQuery [''208.67.222.222'', ''208.67.220.220''] ''www.westpac.com.au'',
      HttpGet ''https://203.0.113.7/a.jpg'' ''www.westpac.com.au'',
      DnsQuery [''9.9.9.9'', ''149.112.112.112''] ''www.westpac.com.au'',
      HttpGet ''https://203.0.113.7/a.jpg'' ''www.westpac.com.au'',
      HostLookup ''www.westpac.com.au'',
      HttpGet ''https://203.0.113.7/a.jpg'' ''www.westpac.com.au'']
   \<and> status_code odd_status_response = 999
   \<and> download_image (answering_runtime odd_status_response)
      (example_row (PStr ''https://www.westpac.com.au/a.jpg'')) empty_state
   = (Inr (Some ''scholar_photos/42_Jane_Doe.jpg''),
      \<lparr>files = [''scholar_photos/42_Jane_Doe.jpg'' \<mapsto> ''JFIF''],
       events = [SessionGet ''https://scholars.westpac.com.au/a.jpg''],
       attempts = []\<rparr>)"
proof -
  have "status_code no_content_response = 204"
    and "startswith (content_type_header no_content_response) ''image/''"
    and "status_code odd_status_response = 999"
    by (simp_all add: run_responses startswith_def)
  with no_content_run html_run odd_status_run show ?thesis by (intro conjI)
qed

section \<open>Where the body is written\<close>















section \<open>When the outcome dictionary is returned\<close>

text \<open>
  Whenever \<open>process_scholar\<close> returns, it returns the four keys in their order, with
  \<open>success\<close> true exactly when \<open>successful_dns\<close> is not \<open>None\<close>; and it raises
  only AttributeError, before any network call, and only for a row whose address or name
  is not a string.
\<close>

lemma process_scholar_returns:
  assumes "process_scholar rt row s = (Inr d, s')"
  shows "\<exists>b dns. d = [(''scholar_id'', row_get row ''id'' (PStr [])),
                        (''name'', row_get row ''name'' (PStr ''unknown'')),
                        (''success'', PBool b), (''successful_dns'', dns)]
            \<and> (b \<longleftrightarrow> dns \<noteq> PNone)"
proof -
  let ?url = "row_get row ''image_url'' (PStr [])"
  let ?id = "row_get row ''id'' (PStr [])"
  let ?name = "row_get row ''name'' (PStr ''unknown'')"
  have failure: "d = [(''scholar_id'', ?id), (''name'', ?name), (''success'', PBool False),
                      (''successful_dns'', PNone)] \<Longrightarrow> ?thesis"
    by auto
  show ?thesis
  proof (cases "truthy ?url")
    case False
    with assms show ?thesis by (intro failure) (simp add: process_scholar_def)
  next
    case True
    show ?thesis
    proof (cases ?url)
      case (PStr u)
      show ?thesis
      proof (cases "strip (isspace rt) u = []")
        case blank: True
        with assms True PStr show ?thesis by (intro failure) (simp add: process_scholar_def)
      next
        case nonblank: False
        show ?thesis
        proof (cases ?name)
          case name: (PStr n)
          note enters = process_scholar_enters_loop [OF PStr nonblank name refl, of s]
          let ?fp = "os_path_join ''scholar_photos_dns''
                (py_format (row_get row ''id'' (PStr [])) @ ''_''
                 @ py_replace (py_replace (py_replace n '' '' ''_'') ''.'' []) '','' []
                 @ ''.jpg'')"
          show ?thesis
          proof (cases "files s ?fp \<noteq> None")
            case True
            with assms enters name show ?thesis by auto
          next
            case False
            obtain res s0 where loop: "dns_server_loop rt u ?fp DNS_SERVERS s = (res, s0)"
              by (cases "dns_server_loop rt u ?fp DNS_SERVERS s")
            with assms enters name False show ?thesis by (cases res) auto
          qed
        qed (use assms True PStr nonblank in \<open>simp_all add: process_scholar_def\<close>)
      qed
    qed (use assms True in \<open>simp_all add: process_scholar_def\<close>)
  qed
qed

lemma process_scholar_raises_only_on_types:
  assumes "process_scholar rt row s = (Inl e, s')"
  shows "e = AttributeError \<and> s' = s
       \<and> (\<not> isinstance_str (row_get row ''image_url'' (PStr []))
          \<or> \<not> isinstance_str (row_get row ''name'' (PStr ''unknown'')))"
proof -
  let ?url = "row_get row ''image_url'' (PStr [])"
  let ?name = "row_get row ''name'' (PStr ''unknown'')"
  show ?thesis
  proof (cases "truthy ?url")
    case False
    with assms show ?thesis by (simp add: process_scholar_def)
  next
    case True
    show ?thesis
    proof (cases ?url)
      case (PStr u)
      show ?thesis
      proof (cases "strip (isspace rt) u = []")
        case blank: True
        with assms True PStr show ?thesis by (simp add: process_scholar_def)
      next
        case nonblank: False
        show ?thesis
        proof (cases ?name)
          case name: (PStr n)
          note enters = process_scholar_enters_loop [OF PStr nonblank name refl, of s]
          let ?fp = "os_path_join ''scholar_photos_dns''
                (py_format (row_get row ''id'' (PStr [])) @ ''_''
                 @ py_replace (py_replace (py_replace n '' '' ''_'') ''.'' []) '','' []
                 @ ''.jpg'')"
          obtain res s0 where loop: "dns_server_loop rt u ?fp DNS_SERVERS s = (res, s0)"
            by (cases "dns_server_loop rt u ?fp DNS_SERVERS s")
          with assms enters show ?thesis by (cases res) (auto split: if_splits)
        qed (use assms True PStr nonblank in \<open>auto simp: process_scholar_def\<close>)
      qed
    qed (use assms True in \<open>auto simp: process_scholar_def\<close>)
  qed
qed

section \<open>Further facts\<close>

text \<open>
  When \<^verbatim>\<open>urlparse\<close> accepts the address and \<^verbatim>\<open>urljoin\<close> raises nothing,
  \<open>generate_alternative_urls\<close> returns a list.
\<close>

lemma base_url_loop_returns:
  assumes "urlparse rt url = Inr parsed"
    and "\<And>base rel. \<exists>joined. urljoin rt base rel = Inr joined"
  shows "\<exists>xs. base_url_loop rt url bases alts = Inr xs"
proof (induction bases arbitrary: alts)
  case Nil
  show ?case by simp
next
  case (Cons b bs)
  let ?p = "if startswith (path parsed) ''/'' then drop 1 (path parsed) else path parsed"
  from assms(2) obtain joined where j: "urljoin rt (b @ ''/'') ?p = Inr joined" by blast
  from Cons.IH [of "alts @ [joined]"] obtain xs
    where "base_url_loop rt url bs (alts @ [joined]) = Inr xs" by blast
  with assms(1) j have "base_url_loop rt url (b # bs) alts = Inr xs"
    by (simp add: Let_def)
  then show ?case by blast
qed

lemma generate_alternative_urls_returns:
  assumes "urlparse rt url = Inr parsed"
    and "\<And>base rel. \<exists>joined. urljoin rt base rel = Inr joined"
  shows "\<exists>urls. generate_alternative_urls rt url scholar_id year = Inr urls"
proof -
  from base_url_loop_returns [OF assms, of ALTERNATIVE_BASE_URLS "[url]"] obtain xs
    where "base_url_loop rt url ALTERNATIVE_BASE_URLS [url] = Inr xs" by blast
  then show ?thesis
    by (simp add: generate_alternative_urls_def alternatives_built_def)
qed

text \<open>
  The retry strategy that \<open>create_session\<close> hands to the adapter of requests. The
  retries themselves are made inside that library.
\<close>

lemma create_session_strategy:
  "total create_session = 3 \<and> backoff_factor create_session = 2
   \<and> status_forcelist create_session = [429, 500, 502, 503, 504]
   \<and> allowed_methods create_session = [''GET'']"
  by (simp add: create_session_def MAX_RETRIES_def RETRY_BACKOFF_def)

text \<open>
  For every row, the strategies \<open>process_scholar\<close> logs as attempted are a front part
  of \<open>DNS_SERVERS\<close>; it is empty for a row that does not reach the loop.
\<close>

lemma process_scholar_attempts_prefix:
  assumes "process_scholar rt row s = (r, s')"
  shows "\<exists>k. attempts s' = attempts s @ take k (map fst DNS_SERVERS)"
proof -
  let ?url = "row_get row ''image_url'' (PStr [])"
  let ?name = "row_get row ''name'' (PStr ''unknown'')"
  have unchanged: "s' = s \<Longrightarrow> ?thesis"
  proof -
    assume "s' = s"
    then have "attempts s' = attempts s @ take 0 (map fst DNS_SERVERS)" by simp
    then show ?thesis by blast
  qed
  show ?thesis
  proof (cases "truthy ?url")
    case False
    with assms show ?thesis by (intro unchanged) (simp add: process_scholar_def)
  next
    case True
    show ?thesis
    proof (cases ?url)
      case (PStr u)
      show ?thesis
      proof (cases "strip (isspace rt) u = []")
        case blank: True
        with assms True PStr show ?thesis by (intro unchanged) (simp add: process_scholar_def)
      next
        case nonblank: False
        show ?thesis
        proof (cases ?name)
          case name: (PStr n)
          note enters = process_scholar_enters_loop [OF PStr nonblank name refl, of s]
          let ?fp = "os_path_join ''scholar_photos_dns''
                (py_format (row_get row ''id'' (PStr [])) @ ''_''
                 @ py_replace (py_replace (py_replace n '' '' ''_'') ''.'' []) '','' []
                 @ ''.jpg'')"
          show ?thesis
          proof (cases "files s ?fp \<noteq> None")
            case True
            with assms enters show ?thesis by (intro unchanged) simp
          next
            case False
            obtain res s0 where loop: "dns_server_loop rt u ?fp DNS_SERVERS s = (res, s0)"
              by (cases "dns_server_loop rt u ?fp DNS_SERVERS s")
            with assms enters False have "s0 = s'" by (cases res) auto
            with dns_server_loop_chain [OF loop] show ?thesis by blast
          qed
        qed (use assms True PStr nonblank in \<open>auto simp: process_scholar_def intro: unchanged\<close>)
      qed
    qed (use assms True in \<open>auto simp: process_scholar_def intro: unchanged\<close>)
  qed
qed


end
